theory Spec2Isabelle
  imports Main "HOL-Library.Word"
begin

section \<open>The wrapped iterable\<close>

text \<open>
  \<^verbatim>\<open>xtr::enumerate\<close> is a template over an arbitrary iterable. Everything the adapter
  needs from the wrapped type is the five operations the range-based for statement uses:
  \<^verbatim>\<open>begin(c)\<close>, \<^verbatim>\<open>end(c)\<close>, \<^verbatim>\<open>++it\<close>, \<^verbatim>\<open>*it\<close> and \<^verbatim>\<open>it != end\<close>. The template
  parameter is modelled as a record of these operations: \<open>'c\<close> is the iterable, \<open>'it\<close> its
  iterator type, \<open>'e\<close> the type of its end sentinel (the header compares against any
  \<^verbatim>\<open>EndIterator\<close>) and \<open>'r\<close> the type \<^verbatim>\<open>decltype(*it)\<close>. Dereferencing reads the
  iterable, so \<open>deref_op\<close> takes it as an argument.
\<close>

record ('c, 'it, 'e, 'r) iterable_ops =
  begin_op :: "'c \<Rightarrow> 'it"
  end_op :: "'c \<Rightarrow> 'e"
  incr_op :: "'it \<Rightarrow> 'it"
  deref_op :: "'c \<Rightarrow> 'it \<Rightarrow> 'r"
  neq_op :: "'it \<Rightarrow> 'e \<Rightarrow> bool"

text \<open>
  The sequence containers of the standard library (\<^verbatim>\<open>std::vector\<close>, \<^verbatim>\<open>std::array\<close>, a
  built-in array): the iterable is the list of its elements, an iterator is an offset into
  it, \<^verbatim>\<open>begin\<close> is offset 0 and \<^verbatim>\<open>end\<close> is the offset one past the last element.
  Dereferencing an offset that is not below the length is undefined in C++, and
  \<open>xs ! p\<close> is unspecified there; a traversal dereferences offsets below the length only
  (lemma \<open>vector_dereferences_in_bounds\<close>).
\<close>

definition vector_ops :: "('a list, nat, nat, 'a) iterable_ops" where
  "vector_ops =
     \<lparr>begin_op = (\<lambda>xs. 0), end_op = length, incr_op = Suc,
      deref_op = (\<lambda>xs p. xs ! p), neq_op = (\<lambda>p e. p \<noteq> e)\<rparr>"

section \<open>The enumerate adapter\<close>

subsection \<open>\<^verbatim>\<open>enumerator\<close>: the object returned by \<^verbatim>\<open>xtr::enumerate\<close>\<close>

text \<open>
  \<^verbatim>\<open>enumerator_base\<close> has the single data member \<^verbatim>\<open>m_iterable\<close>; \<^verbatim>\<open>enumerator\<close> adds
  none. Here \<open>m_iterable\<close> is the iterable the adapter reaches through that member, be it
  the object the member holds or the object the member refers to.
\<close>

record 'c enumerator =
  m_iterable :: 'c

definition enumerate :: "'c \<Rightarrow> 'c enumerator" where
  "enumerate iterable = \<lparr>m_iterable = iterable\<rparr>"

subsection \<open>\<^verbatim>\<open>indexed_iterator\<close>\<close>

text \<open>
  \<^verbatim>\<open>indexed_iterator_base\<close> holds \<^verbatim>\<open>m_iterator\<close>, \<^verbatim>\<open>indexed_iterator\<close> adds \<^verbatim>\<open>m_index\<close>
  of type \<^verbatim>\<open>index_type\<close>. In the operations below the index type is an unsigned integer
  type of some width \<open>'w\<close> (a 64-bit \<^verbatim>\<open>std::size_t\<close>, for one): a \<open>'w word\<close>, whose \<open>+\<close> wraps
  around as \<^verbatim>\<open>++\<close> does, and which \<open>unat\<close> reads as a number.
\<close>

type_synonym size_t = "64 word"

record ('it, 'i) indexed_iterator =
  m_iterator :: 'it
  m_index :: 'i

text \<open>The constructor: \<^verbatim>\<open>m_iterator{forward(iterator)}, m_index{}\<close>.\<close>

definition indexed_iterator :: "'it \<Rightarrow> ('it, 'w::len word) indexed_iterator" where
  "indexed_iterator iterator = \<lparr>m_iterator = iterator, m_index = 0\<rparr>"

text \<open>\<^verbatim>\<open>operator!=\<close>, a const member: \<^verbatim>\<open>return m_iterator != forward(end);\<close>\<close>

definition operator_neq ::
  "('c, 'it, 'e, 'r) iterable_ops \<Rightarrow> ('it, 'w::len word) indexed_iterator \<Rightarrow> 'e \<Rightarrow> bool" where
  "operator_neq ops this e = neq_op ops (m_iterator this) e"

text \<open>
  \<^verbatim>\<open>operator++\<close>, a non-const member returning \<^verbatim>\<open>void\<close>: \<^verbatim>\<open>++m_iterator; ++m_index;\<close>.
  The model returns the object after the call.
\<close>

definition operator_inc ::
  "('c, 'it, 'e, 'r) iterable_ops \<Rightarrow> ('it, 'w::len word) indexed_iterator \<Rightarrow> ('it, 'w word) indexed_iterator" where
  "operator_inc ops this =
     (let this1 = this\<lparr>m_iterator := incr_op ops (m_iterator this)\<rparr>
      in this1\<lparr>m_index := m_index this1 + 1\<rparr>)"

text \<open>
  \<^verbatim>\<open>operator*\<close>, a non-const member: \<^verbatim>\<open>return {m_index, *m_iterator};\<close>. The result type
  is \<^verbatim>\<open>std::tuple<const index_type, decltype(*it)>\<close>: the index is copied into the tuple.
  The model returns the tuple and the object after the call.
\<close>

definition operator_deref ::
  "('c, 'it, 'e, 'r) iterable_ops \<Rightarrow> 'c \<Rightarrow> ('it, 'w::len word) indexed_iterator \<Rightarrow>
     ('w word \<times> 'r) \<times> ('it, 'w word) indexed_iterator" where
  "operator_deref ops c this = ((m_index this, deref_op ops c (m_iterator this)), this)"

subsection \<open>\<^verbatim>\<open>begin\<close> and \<^verbatim>\<open>end\<close> of an enumerator\<close>

text \<open>
  \<^verbatim>\<open>begin(enumerator&)\<close> returns \<^verbatim>\<open>{begin(object.m_iterable)}\<close>, an \<^verbatim>\<open>indexed_iterator\<close>;
  \<^verbatim>\<open>end(enumerator_base&)\<close> returns \<^verbatim>\<open>end(object.m_iterable)\<close>, the sentinel of the wrapped
  iterable itself.
\<close>

definition begin_enumerator ::
  "('c, 'it, 'e, 'r) iterable_ops \<Rightarrow> 'c enumerator \<Rightarrow> ('it, 'w::len word) indexed_iterator" where
  "begin_enumerator ops object = indexed_iterator (begin_op ops (m_iterable object))"

definition end_enumerator :: "('c, 'it, 'e, 'r) iterable_ops \<Rightarrow> 'c enumerator \<Rightarrow> 'e" where
  "end_enumerator ops object = end_op ops (m_iterable object)"

section \<open>Traversal: the range-based for statement\<close>

text \<open>
  \<^verbatim>\<open>for (auto &&p : xtr::enumerate(c)) out.push_back(p);\<close> is, by the language's
  definition,
  \<^verbatim>\<open>
    auto &&range_obj = xtr::enumerate(c);
    auto begin_obj = begin(range_obj);
    auto end_obj = end(range_obj);
    for (; begin_obj != end_obj; ++begin_obj) { auto &&p = *begin_obj; out.push_back(p); }
  \<close>
  where \<^verbatim>\<open>begin\<close> and \<^verbatim>\<open>end\<close> are the two functions of the header, found by
  argument-dependent lookup. The state of the loop is the four objects it names. The loop
  need not terminate (the wrapped iterable may be infinite), so it is a partial function:
  \<open>None\<close> means that it runs forever.
\<close>

record ('c, 'it, 'e, 'i, 'r) loop_state =
  range_obj :: "'c enumerator"
  begin_obj :: "('it, 'i) indexed_iterator"
  end_obj :: 'e
  out :: "('i \<times> 'r) list"

definition loop_body ::
  "('c, 'it, 'e, 'r) iterable_ops \<Rightarrow> ('c, 'it, 'e, 'w::len word, 'r) loop_state \<Rightarrow>
     ('c, 'it, 'e, 'w word, 'r) loop_state" where
  "loop_body ops s =
     (case operator_deref ops (m_iterable (range_obj s)) (begin_obj s) of
        (p, this) \<Rightarrow> s\<lparr>begin_obj := operator_inc ops this, out := out s @ [p]\<rparr>)"

partial_function (option) loop ::
  "('c, 'it, 'e, 'r) iterable_ops \<Rightarrow> ('c, 'it, 'e, 'w::len word, 'r) loop_state \<Rightarrow>
     ('c, 'it, 'e, 'w word, 'r) loop_state option" where
  "loop ops s =
     (if operator_neq ops (begin_obj s) (end_obj s) then loop ops (loop_body ops s)
      else Some s)"

definition loop_init ::
  "('c, 'it, 'e, 'r) iterable_ops \<Rightarrow> 'c enumerator \<Rightarrow> ('c, 'it, 'e, 'w::len word, 'r) loop_state" where
  "loop_init ops e =
     \<lparr>range_obj = e, begin_obj = begin_enumerator ops e, end_obj = end_enumerator ops e, out = []\<rparr>"

definition range_for_state ::
  "('c, 'it, 'e, 'r) iterable_ops \<Rightarrow> 'c enumerator \<Rightarrow> ('c, 'it, 'e, 'w::len word, 'r) loop_state option" where
  "range_for_state ops e = loop ops (loop_init ops e)"

definition range_for ::
  "('c, 'it, 'e, 'r) iterable_ops \<Rightarrow> 'c enumerator \<Rightarrow> ('w::len word \<times> 'r) list option" where
  "range_for ops e = map_option out (range_for_state ops e)"

text \<open>
  The same statement over the wrapped iterable itself,
  \<^verbatim>\<open>for (auto &&x : c) out.push_back(x);\<close>: what the iterable yields when it is traversed
  without the adapter. A finite iterable of length \<open>N\<close> is one for which this returns a
  list of length \<open>N\<close>, its elements in their original order.
\<close>

partial_function (option) plain_loop ::
  "('c, 'it, 'e, 'r) iterable_ops \<Rightarrow> 'c \<Rightarrow> 'it \<Rightarrow> 'e \<Rightarrow> 'r list \<Rightarrow> 'r list option" where
  "plain_loop ops c it en acc =
     (if neq_op ops it en
      then plain_loop ops c (incr_op ops it) en (acc @ [deref_op ops c it])
      else Some acc)"

definition plain_for :: "('c, 'it, 'e, 'r) iterable_ops \<Rightarrow> 'c \<Rightarrow> 'r list option" where
  "plain_for ops c = plain_loop ops c (begin_op ops c) (end_op ops c) []"

text \<open>The position of the wrapped iterable after \<open>k\<close> advancements from its beginning.\<close>

definition position :: "('c, 'it, 'e, 'r) iterable_ops \<Rightarrow> 'c \<Rightarrow> nat \<Rightarrow> 'it" where
  "position ops c k = (incr_op ops ^^ k) (begin_op ops c)"

section \<open>The types of the header\<close>

text \<open>
  Most of the header is computed by the compiler: alias templates select types, and
  \<^verbatim>\<open>static_assert\<close> rejects instantiations. A class or alias template is a function on
  types, so the types are data here and each template is a function on them.
  \<open>Scalar n\<close> is an arithmetic type other than \<^verbatim>\<open>bool\<close>, or a pointer to an object type,
  named \<open>n\<close>. \<open>Class n s\<close> is a class type named \<open>n\<close> whose nested type \<^verbatim>\<open>size_type\<close> is
  \<open>s\<close>, if it declares one, and which declares no \<^verbatim>\<open>operator++\<close>. \<open>IncClass n\<close> is a class
  type named \<open>n\<close> that can be value-initialised and copied and declares a prefix
  \<^verbatim>\<open>operator++\<close> for its non-const lvalues: an iterator class, a counter class.
\<close>

datatype ty =
    Void
  | Bool
  | Scalar string
  | Class string "ty option"
  | IncClass string
  | StdArray ty nat
  | StdTuple "ty list"
  | Const ty
  | LRef ty
  | RRef ty

definition std_size_t :: ty where
  "std_size_t = Scalar ''std::size_t''"

subsection \<open>The type traits of the standard library that the header uses\<close>

text \<open>
  They are written as the C++ standard defines them; a reference to a reference collapses,
  and a reference type takes no \<^verbatim>\<open>const\<close>.
\<close>

fun is_lvalue_reference_v :: "ty \<Rightarrow> bool" where
  "is_lvalue_reference_v (LRef T) = True"
| "is_lvalue_reference_v T = False"

fun is_rvalue_reference_v :: "ty \<Rightarrow> bool" where
  "is_rvalue_reference_v (RRef T) = True"
| "is_rvalue_reference_v T = False"

definition is_reference_v :: "ty \<Rightarrow> bool" where
  "is_reference_v T = (is_lvalue_reference_v T \<or> is_rvalue_reference_v T)"

fun is_const_v :: "ty \<Rightarrow> bool" where
  "is_const_v (Const T) = True"
| "is_const_v T = False"

fun remove_reference_t :: "ty \<Rightarrow> ty" where
  "remove_reference_t (LRef T) = T"
| "remove_reference_t (RRef T) = T"
| "remove_reference_t T = T"

text \<open>
  \<^verbatim>\<open>is_object_v<T>\<close>: every type but \<^verbatim>\<open>void\<close>, with or without \<^verbatim>\<open>const\<close>, and the
  reference types (function types are not modelled). A data member that is not a
  reference has such a type.
\<close>

fun is_object_v :: "ty \<Rightarrow> bool" where
  "is_object_v Void = False"
| "is_object_v (Const T) = is_object_v T"
| "is_object_v (LRef T) = False"
| "is_object_v (RRef T) = False"
| "is_object_v T = True"

text \<open>
  \<^verbatim>\<open>add_lvalue_reference_t\<close> and \<^verbatim>\<open>add_rvalue_reference_t\<close> leave a type to which there
  is no reference, \<^verbatim>\<open>void\<close> with or without \<^verbatim>\<open>const\<close>, as it is.
\<close>

fun add_lvalue_reference_t :: "ty \<Rightarrow> ty" where
  "add_lvalue_reference_t (LRef T) = LRef T"
| "add_lvalue_reference_t (RRef T) = LRef T"
| "add_lvalue_reference_t T = (if is_object_v T then LRef T else T)"

fun add_rvalue_reference_t :: "ty \<Rightarrow> ty" where
  "add_rvalue_reference_t (LRef T) = LRef T"
| "add_rvalue_reference_t (RRef T) = RRef T"
| "add_rvalue_reference_t T = (if is_object_v T then RRef T else T)"

fun add_const_t :: "ty \<Rightarrow> ty" where
  "add_const_t (Const T) = Const T"
| "add_const_t (LRef T) = LRef T"
| "add_const_t (RRef T) = RRef T"
| "add_const_t T = Const T"

text \<open>
  Whether \<^verbatim>\<open>++declval<T &>()\<close> is well-formed, that is, whether an lvalue of type \<open>T\<close>
  can be incremented: an arithmetic type other than \<^verbatim>\<open>bool\<close> (whose \<^verbatim>\<open>++\<close> the language
  removed in C++17, which the header needs), a pointer to an object type, a class that
  declares \<^verbatim>\<open>operator++\<close>. An lvalue of a const-qualified type cannot be incremented.
\<close>

fun incrementable :: "ty \<Rightarrow> bool" where
  "incrementable (Scalar n) = True"
| "incrementable (IncClass n) = True"
| "incrementable T = False"

text \<open>
  The nested name \<^verbatim>\<open>T::size_type\<close>, when \<open>T\<close> declares it. \<^verbatim>\<open>std::array\<close> declares it
  as \<^verbatim>\<open>std::size_t\<close>; a const-qualified class has the members of the class.
\<close>

fun size_type_of :: "ty \<Rightarrow> ty option" where
  "size_type_of (Class n s) = s"
| "size_type_of (StdArray T n) = Some std_size_t"
| "size_type_of (Const T) = size_type_of T"
| "size_type_of T = None"

subsection \<open>\<^verbatim>\<open>xtr::multiarray\<close>\<close>

text \<open>
  \<^verbatim>\<open>multiarray_base<Type, I, J...>\<close>: the primary template has
  \<^verbatim>\<open>nested = multiarray_base<Type, J...>::type\<close> and \<^verbatim>\<open>type = std::array<nested, I>\<close>; the
  partial specialisation \<^verbatim>\<open>multiarray_base<Type, I>\<close> has \<^verbatim>\<open>type = std::array<Type, I>\<close>
  and is the one chosen when the pack \<^verbatim>\<open>J...\<close> is empty.
\<close>

fun multiarray_base :: "ty \<Rightarrow> nat \<Rightarrow> nat list \<Rightarrow> ty" where
  "multiarray_base T I [] = StdArray T I"
| "multiarray_base T I (J # Js) = StdArray (multiarray_base T J Js) I"

definition multiarray :: "ty \<Rightarrow> nat \<Rightarrow> nat list \<Rightarrow> ty" where
  "multiarray T I Js = multiarray_base T I Js"

text \<open>The extents of a nested \<^verbatim>\<open>std::array\<close> type, outermost first.\<close>

fun extents :: "ty \<Rightarrow> nat list" where
  "extents (StdArray T n) = n # extents T"
| "extents T = []"

subsection \<open>The class templates of the adapter\<close>

text \<open>
  \<^verbatim>\<open>get_stored_t<T>\<close> is
  \<^verbatim>\<open>conditional_t<is_rvalue_reference_v<T>, remove_reference_t<T>, T>\<close>.
\<close>

definition get_stored_t :: "ty \<Rightarrow> ty" where
  "get_stored_t T = (if is_rvalue_reference_v T then remove_reference_t T else T)"

text \<open>
  Instantiating a class template either fails or gives the class: the types of its members
  and its member types. It fails at a \<^verbatim>\<open>static_assert\<close>, with the message of the
  assertion, or at a member declaration that is ill-formed for the template arguments,
  named here by its text. The declarations of a class are instantiated in their order,
  and a base class before the class derived from it.
\<close>

datatype compile_error = static_assert_failed string | ill_formed string

record enumerator_t =
  iterable_type :: ty
  m_iterable_t :: ty
  enumerator_index_type :: ty

record indexed_iterator_t =
  iterator_type :: ty
  m_iterator_t :: ty
  index_type :: ty
  m_index_t :: ty
  dereference_result_type :: ty

definition enumerator_base_inst :: "ty \<Rightarrow> compile_error + ty" where
  "enumerator_base_inst Iterable =
     (if is_reference_v Iterable then Inr (get_stored_t Iterable)
      else Inl (static_assert_failed ''iterable_type must be a reference''))"

definition enumerator_inst :: "ty \<Rightarrow> ty \<Rightarrow> compile_error + enumerator_t" where
  "enumerator_inst Iterable Index =
     (case enumerator_base_inst Iterable of
        Inl err \<Rightarrow> Inl err
      | Inr stored \<Rightarrow>
          if \<not> is_reference_v Index
          then Inr \<lparr>iterable_type = Iterable, m_iterable_t = stored,
                    enumerator_index_type = Index\<rparr>
          else Inl (static_assert_failed ''index_type must not be a reference''))"

definition indexed_iterator_base_inst :: "ty \<Rightarrow> compile_error + ty" where
  "indexed_iterator_base_inst Iterator =
     (if is_reference_v Iterator then Inr (get_stored_t Iterator)
      else Inl (static_assert_failed ''iterator_type must be a reference''))"

text \<open>
  \<^verbatim>\<open>indexed_iterator<Iterator, Index>\<close>. After the base class and the \<^verbatim>\<open>static_assert\<close>
  come the member \<^verbatim>\<open>index_type m_index\<close>, which needs an object type, and the member alias
  \<^verbatim>\<open>is_increment_noexcept\<close>, which is not a template and names
  \<^verbatim>\<open>++declval<add_lvalue_reference_t<iterator_type>>()\<close> and then
  \<^verbatim>\<open>++declval<add_lvalue_reference_t<index_type>>()\<close>: both must be well-formed for the
  class to be instantiated. \<open>Deref\<close> is
  \<^verbatim>\<open>decltype(*declval<add_lvalue_reference_t<iterator_type>>())\<close>, the type that
  dereferencing the wrapped iterator has; it is given by the wrapped iterator, whose
  \<^verbatim>\<open>operator*\<close> is thereby taken to be well-formed.
  \<^verbatim>\<open>dereference_result_type\<close> is \<^verbatim>\<open>std::tuple<add_const_t<index_type>, Deref>\<close>.
\<close>

definition indexed_iterator_inst :: "ty \<Rightarrow> ty \<Rightarrow> ty \<Rightarrow> compile_error + indexed_iterator_t" where
  "indexed_iterator_inst Iterator Index Deref =
     (case indexed_iterator_base_inst Iterator of
        Inl err \<Rightarrow> Inl err
      | Inr stored \<Rightarrow>
          if is_reference_v Index
          then Inl (static_assert_failed ''index_type must not be a reference'')
          else if \<not> is_object_v Index
          then Inl (ill_formed ''index_type m_index'')
          else if \<not> incrementable (remove_reference_t Iterator)
          then Inl (ill_formed ''++declval<add_lvalue_reference_t<iterator_type>>()'')
          else if \<not> incrementable Index
          then Inl (ill_formed ''++declval<add_lvalue_reference_t<index_type>>()'')
          else Inr \<lparr>iterator_type = Iterator, m_iterator_t = stored, index_type = Index,
                    m_index_t = Index,
                    dereference_result_type = StdTuple [add_const_t Index, Deref]\<rparr>)"

text \<open>
  \<^verbatim>\<open>begin_result_type<Iterable, Index>\<close> is
  \<^verbatim>\<open>indexed_iterator<add_rvalue_reference_t<Begin>, Index>\<close>, where \<open>Begin\<close> is
  \<^verbatim>\<open>decltype(begin(declval<add_lvalue_reference_t<Iterable>>()))\<close>, the iterator type of
  the wrapped iterable.
\<close>

definition begin_result_type :: "ty \<Rightarrow> ty \<Rightarrow> ty \<Rightarrow> compile_error + indexed_iterator_t" where
  "begin_result_type Begin Index Deref =
     indexed_iterator_inst (add_rvalue_reference_t Begin) Index Deref"

text \<open>
  \<^verbatim>\<open>begin(enumerator<Iterable, Index> &)\<close> has the return type
  \<^verbatim>\<open>begin_result_type<Iterable, Index>\<close>: the index type of the iterator is the index type
  of the enumerator.
\<close>

definition begin_t :: "enumerator_t \<Rightarrow> ty \<Rightarrow> ty \<Rightarrow> compile_error + indexed_iterator_t" where
  "begin_t object Begin Deref = begin_result_type Begin (enumerator_index_type object) Deref"

text \<open>
  \<^verbatim>\<open>get_index<Iterable>\<close>: the specialisation, with
  \<^verbatim>\<open>type = remove_reference_t<Iterable>::size_type\<close>, is chosen when that nested type
  exists; the primary template has \<^verbatim>\<open>type = std::size_t\<close>.
\<close>

definition get_index_t :: "ty \<Rightarrow> ty" where
  "get_index_t Iterable =
     (case size_type_of (remove_reference_t Iterable) of
        Some s \<Rightarrow> s
      | None \<Rightarrow> std_size_t)"

text \<open>
  \<^verbatim>\<open>enumerate<Iterable, Index = get_index_t<Iterable>>\<close> returns
  \<^verbatim>\<open>enumerate_result_type<add_rvalue_reference_t<Iterable>, Index>\<close>, which is
  \<^verbatim>\<open>enumerator<add_rvalue_reference_t<Iterable>, Index>\<close>. The second argument is the
  explicit index type, when the caller supplies one.
\<close>

definition enumerate_result_type :: "ty \<Rightarrow> ty \<Rightarrow> compile_error + enumerator_t" where
  "enumerate_result_type Iterable Index = enumerator_inst Iterable Index"

definition enumerate_t :: "ty \<Rightarrow> ty option \<Rightarrow> compile_error + enumerator_t" where
  "enumerate_t Iterable Index =
     enumerate_result_type (add_rvalue_reference_t Iterable)
       (case Index of Some I \<Rightarrow> I | None \<Rightarrow> get_index_t Iterable)"

text \<open>
  The parameter of \<^verbatim>\<open>enumerate\<close> is the forwarding reference \<^verbatim>\<open>Iterable &&\<close>: for an
  argument of type \<open>U\<close>, \<^verbatim>\<open>Iterable\<close> is deduced as \<^verbatim>\<open>U &\<close> when the argument is an lvalue (a
  named object) and as \<open>U\<close> when it is an rvalue (a temporary).
\<close>

datatype value_category = lvalue | rvalue

fun deduce_forwarding :: "value_category \<Rightarrow> ty \<Rightarrow> ty" where
  "deduce_forwarding lvalue U = LRef U"
| "deduce_forwarding rvalue U = U"

section \<open>Ownership of the wrapped iterable\<close>

text \<open>
  Objects live in a memory, at addresses; an address with no object is \<open>None\<close>. The member
  \<^verbatim>\<open>m_iterable\<close> has the type \<^verbatim>\<open>get_stored_t<iterable_type>\<close>: it either is an iterable
  object of its own (\<open>Held\<close>) or is a reference to an object of the caller (\<open>Refers\<close>).
\<close>

type_synonym addr = nat

type_synonym 'c memory = "addr \<Rightarrow> 'c option"

datatype 'c stored = Held 'c | Refers addr

text \<open>
  The constructor \<^verbatim>\<open>enumerator_base(iterable_type iterable)\<close> initialises
  \<^verbatim>\<open>m_iterable{std::forward<iterable_type>(iterable)}\<close>, where the parameter is bound to
  the argument object at address \<open>a\<close>. When the member is a reference it is bound to that
  object. When the member is an object, it is move-constructed from the argument, which
  is left in its moved-from state \<open>moved c\<close> (given by the iterable's type). The
  constructor of \<^verbatim>\<open>enumerator\<close> passes its parameter on to this one.
\<close>

definition enumerator_base ::
  "('c \<Rightarrow> 'c) \<Rightarrow> ty \<Rightarrow> 'c memory \<Rightarrow> addr \<Rightarrow> ('c stored enumerator \<times> 'c memory) option" where
  "enumerator_base moved iterable_t mem a =
     (case mem a of
        None \<Rightarrow> None
      | Some c \<Rightarrow>
          if is_reference_v (get_stored_t iterable_t)
          then Some (\<lparr>m_iterable = Refers a\<rparr>, mem)
          else Some (\<lparr>m_iterable = Held c\<rparr>, mem(a \<mapsto> moved c)))"

definition enumerator ::
  "('c \<Rightarrow> 'c) \<Rightarrow> ty \<Rightarrow> 'c memory \<Rightarrow> addr \<Rightarrow> ('c stored enumerator \<times> 'c memory) option" where
  "enumerator moved iterable_t mem a = enumerator_base moved iterable_t mem a"

text \<open>
  \<^verbatim>\<open>enumerate(Iterable &&iterable)\<close> returns \<^verbatim>\<open>{std::forward<Iterable>(iterable)}\<close>, an
  \<^verbatim>\<open>enumerator<add_rvalue_reference_t<Iterable>, Index>\<close>. The argument is an expression
  of type \<open>U\<close> and of the given value category that denotes the object at address \<open>a\<close>.
\<close>

definition enumerate_call ::
  "('c \<Rightarrow> 'c) \<Rightarrow> value_category \<Rightarrow> ty \<Rightarrow> 'c memory \<Rightarrow> addr \<Rightarrow>
     ('c stored enumerator \<times> 'c memory) option" where
  "enumerate_call moved cat U mem a =
     enumerator moved (add_rvalue_reference_t (deduce_forwarding cat U)) mem a"

text \<open>
  The variadic constructors initialise \<^verbatim>\<open>m_iterable{std::forward<Parameters>(parameters)...}\<close>:
  the member is list-initialised from the arguments themselves. Here the iterable's type
  is not a reference, so that the member is an object, and \<open>construct\<close> is the
  list-initialisation of that type from an argument list. The variadic
  \<^verbatim>\<open>enumerate<Iterable>(parameters...)\<close> returns \<^verbatim>\<open>{std::forward<Parameters>(parameters)...}\<close>,
  which reaches this constructor through the variadic constructor of \<^verbatim>\<open>enumerator\<close>.
\<close>

definition enumerator_base_variadic ::
  "('p \<Rightarrow> 'c) \<Rightarrow> 'p \<Rightarrow> 'c memory \<Rightarrow> 'c stored enumerator \<times> 'c memory" where
  "enumerator_base_variadic construct parameters mem =
     (\<lparr>m_iterable = Held (construct parameters)\<rparr>, mem)"

definition enumerator_variadic ::
  "('p \<Rightarrow> 'c) \<Rightarrow> 'p \<Rightarrow> 'c memory \<Rightarrow> 'c stored enumerator \<times> 'c memory" where
  "enumerator_variadic construct parameters mem =
     enumerator_base_variadic construct parameters mem"

definition enumerate_variadic ::
  "('p \<Rightarrow> 'c) \<Rightarrow> 'p \<Rightarrow> 'c memory \<Rightarrow> 'c stored enumerator \<times> 'c memory" where
  "enumerate_variadic construct parameters mem = enumerator_variadic construct parameters mem"






text \<open>
  The iterable that \<^verbatim>\<open>begin\<close> and \<^verbatim>\<open>end\<close> reach as \<^verbatim>\<open>object.m_iterable\<close>, in a given
  memory: the member itself, or the object it refers to, if that object is still alive.
\<close>

definition iterable_of :: "'c memory \<Rightarrow> 'c stored enumerator \<Rightarrow> 'c option" where
  "iterable_of mem object =
     (case m_iterable object of Held c \<Rightarrow> Some c | Refers a \<Rightarrow> mem a)"


section \<open>Unrolling the traversal\<close>

lemma operator_inc_funpow:
  "(operator_inc ops ^^ k) this =
     \<lparr>m_iterator = (incr_op ops ^^ k) (m_iterator this), m_index = m_index this + of_nat k\<rparr>"
proof (induction k)
  case 0
  show ?case by simp
next
  case (Suc k)
  then show ?case by (simp add: operator_inc_def Let_def)
qed

lemma loop_body_funpow:
  "(loop_body ops ^^ k) s =
     s\<lparr>begin_obj := (operator_inc ops ^^ k) (begin_obj s),
       out := out s @ map (\<lambda>j. (m_index (begin_obj s) + of_nat j,
                deref_op ops (m_iterable (range_obj s)) ((incr_op ops ^^ j) (m_iterator (begin_obj s)))))
              [0..<k]\<rparr>"
proof (induction k)
  case 0
  show ?case by simp
next
  case (Suc k)
  then show ?case
    by (simp add: loop_body_def operator_deref_def operator_inc_funpow)
qed

lemma loop_unroll:
  assumes "\<forall>j<k. neq_op ops ((incr_op ops ^^ j) (m_iterator (begin_obj s))) (end_obj s)"
  shows "loop ops s = loop ops ((loop_body ops ^^ k) s)"
  using assms
proof (induction k)
  case 0
  show ?case by simp
next
  case (Suc k)
  then have "loop ops s = loop ops ((loop_body ops ^^ k) s)" by simp
  also have "\<dots> = loop ops (loop_body ops ((loop_body ops ^^ k) s))"
    using Suc.prems
    by (subst loop.simps) (simp add: operator_neq_def loop_body_funpow operator_inc_funpow)
  finally show ?case by simp
qed

lemma loop_stops:
  assumes "\<forall>j<k. neq_op ops ((incr_op ops ^^ j) (m_iterator (begin_obj s))) (end_obj s)"
    and "\<not> neq_op ops ((incr_op ops ^^ k) (m_iterator (begin_obj s))) (end_obj s)"
  shows "loop ops s = Some ((loop_body ops ^^ k) s)"
proof -
  have "loop ops s = loop ops ((loop_body ops ^^ k) s)"
    using assms(1) by (rule loop_unroll)
  also have "\<dots> = Some ((loop_body ops ^^ k) s)"
    using assms(2)
    by (subst loop.simps) (simp add: operator_neq_def loop_body_funpow operator_inc_funpow)
  finally show ?thesis .
qed

lemma loop_Some_reaches_end:
  fixes ops :: "('c, 'it, 'e, 'r) iterable_ops" and s :: "('c, 'it, 'e, 'w::len word, 'r) loop_state"
  assumes "loop ops s = Some s'"
  shows "\<exists>k. \<not> neq_op ops ((incr_op ops ^^ k) (m_iterator (begin_obj s))) (end_obj s)"
proof (rule loop.raw_induct
    [where P = "\<lambda>ops s s'. \<exists>k. \<not> neq_op ops ((incr_op ops ^^ k) (m_iterator (begin_obj s))) (end_obj s)",
      OF _ assms])
  fix f :: "('c, 'it, 'e, 'r) iterable_ops \<Rightarrow> ('c, 'it, 'e, 'w word, 'r) loop_state \<Rightarrow>
    ('c, 'it, 'e, 'w word, 'r) loop_state option"
  fix ops s s'
  assume IH: "\<And>a b y. f a b = Some y \<Longrightarrow>
      \<exists>k. \<not> neq_op a ((incr_op a ^^ k) (m_iterator (begin_obj b))) (end_obj b)"
    and eq: "(if operator_neq ops (begin_obj s) (end_obj s) then f ops (loop_body ops s) else Some s) = Some s'"
  show "\<exists>k. \<not> neq_op ops ((incr_op ops ^^ k) (m_iterator (begin_obj s))) (end_obj s)"
  proof (cases "operator_neq ops (begin_obj s) (end_obj s)")
    case True
    with eq have "f ops (loop_body ops s) = Some s'" by simp
    from IH[OF this] obtain k where
      "\<not> neq_op ops ((incr_op ops ^^ k) (m_iterator (begin_obj (loop_body ops s)))) (end_obj (loop_body ops s))"
      by blast
    then have "\<not> neq_op ops ((incr_op ops ^^ Suc k) (m_iterator (begin_obj s))) (end_obj s)"
      by (simp add: loop_body_def operator_deref_def operator_inc_def Let_def funpow_swap1)
    then show ?thesis by blast
  next
    case False
    then have "\<not> neq_op ops ((incr_op ops ^^ 0) (m_iterator (begin_obj s))) (end_obj s)"
      by (simp add: operator_neq_def)
    then show ?thesis by blast
  qed
qed

lemma plain_loop_unroll:
  assumes "\<forall>j<k. neq_op ops ((incr_op ops ^^ j) it) en"
  shows "plain_loop ops c it en acc =
         plain_loop ops c ((incr_op ops ^^ k) it) en
           (acc @ map (\<lambda>j. deref_op ops c ((incr_op ops ^^ j) it)) [0..<k])"
  using assms
proof (induction k)
  case 0
  show ?case by simp
next
  case (Suc k)
  then have "plain_loop ops c it en acc =
      plain_loop ops c ((incr_op ops ^^ k) it) en
        (acc @ map (\<lambda>j. deref_op ops c ((incr_op ops ^^ j) it)) [0..<k])"
    by simp
  also have "\<dots> = plain_loop ops c ((incr_op ops ^^ Suc k) it) en
        (acc @ map (\<lambda>j. deref_op ops c ((incr_op ops ^^ j) it)) [0..<Suc k])"
    using Suc.prems by (subst plain_loop.simps) simp
  finally show ?case .
qed

lemma plain_loop_stops:
  assumes "\<forall>j<k. neq_op ops ((incr_op ops ^^ j) it) en"
    and "\<not> neq_op ops ((incr_op ops ^^ k) it) en"
  shows "plain_loop ops c it en acc =
         Some (acc @ map (\<lambda>j. deref_op ops c ((incr_op ops ^^ j) it)) [0..<k])"
proof -
  have "plain_loop ops c it en acc =
      plain_loop ops c ((incr_op ops ^^ k) it) en
        (acc @ map (\<lambda>j. deref_op ops c ((incr_op ops ^^ j) it)) [0..<k])"
    using assms(1) by (rule plain_loop_unroll)
  also have "\<dots> = Some (acc @ map (\<lambda>j. deref_op ops c ((incr_op ops ^^ j) it)) [0..<k])"
    using assms(2) by (subst plain_loop.simps) simp
  finally show ?thesis .
qed


lemma plain_loop_Some_reaches_end:
  fixes ops :: "('c, 'it, 'e, 'r) iterable_ops"
  assumes "plain_loop ops c it en acc = Some xs"
  shows "\<exists>k. \<not> neq_op ops ((incr_op ops ^^ k) it) en"
proof (rule plain_loop.raw_induct
    [where P = "\<lambda>ops c it en acc xs. \<exists>k. \<not> neq_op ops ((incr_op ops ^^ k) it) en", OF _ assms])
  fix f :: "('c, 'it, 'e, 'r) iterable_ops \<Rightarrow> 'c \<Rightarrow> 'it \<Rightarrow> 'e \<Rightarrow> 'r list \<Rightarrow> 'r list option"
  fix ops c it en acc xs
  assume IH: "\<And>a b c d e y. f a b c d e = Some y \<Longrightarrow> \<exists>k. \<not> neq_op a ((incr_op a ^^ k) c) d"
    and eq: "(if neq_op ops it en then f ops c (incr_op ops it) en (acc @ [deref_op ops c it])
              else Some acc) = Some xs"
  show "\<exists>k. \<not> neq_op ops ((incr_op ops ^^ k) it) en"
  proof (cases "neq_op ops it en")
    case True
    with eq have "f ops c (incr_op ops it) en (acc @ [deref_op ops c it]) = Some xs" by simp
    from IH[OF this] obtain k where "\<not> neq_op ops ((incr_op ops ^^ k) (incr_op ops it)) en"
      by blast
    then have "\<not> neq_op ops ((incr_op ops ^^ Suc k) it) en"
      by (simp add: funpow_swap1)
    then show ?thesis by blast
  next
    case False
    then have "\<not> neq_op ops ((incr_op ops ^^ 0) it) en" by simp
    then show ?thesis by blast
  qed
qed

lemma first_end:
  assumes "\<exists>k. \<not> neq_op ops ((incr_op ops ^^ k) it) en"
  obtains n where "\<forall>j<n. neq_op ops ((incr_op ops ^^ j) it) en"
    and "\<not> neq_op ops ((incr_op ops ^^ n) it) en"
proof -
  define n where "n = (LEAST k. \<not> neq_op ops ((incr_op ops ^^ k) it) en)"
  have "\<not> neq_op ops ((incr_op ops ^^ n) it) en"
    unfolding n_def using assms by (rule LeastI_ex)
  moreover have "\<forall>j<n. neq_op ops ((incr_op ops ^^ j) it) en"
    unfolding n_def using not_less_Least by blast
  ultimately show thesis using that by blast
qed

lemma loop_init_simps:
  "range_obj (loop_init ops e) = e"
  "m_iterator (begin_obj (loop_init ops e)) = begin_op ops (m_iterable e)"
  "m_index (begin_obj (loop_init ops e)) = 0"
  "end_obj (loop_init ops e) = end_op ops (m_iterable e)"
  "out (loop_init ops e) = []"
  by (simp_all add: loop_init_def begin_enumerator_def end_enumerator_def indexed_iterator_def)

lemma range_for_state_finite:
  fixes ops :: "('c, 'it, 'e, 'r) iterable_ops"
  assumes "\<forall>k<n. neq_op ops (position ops c k) (end_op ops c)"
    and "\<not> neq_op ops (position ops c n) (end_op ops c)"
  shows "range_for_state ops (enumerate c) =
         Some \<lparr>range_obj = enumerate c,
               begin_obj = \<lparr>m_iterator = position ops c n, m_index = of_nat n :: 'w::len word\<rparr>,
               end_obj = end_op ops c,
               out = map (\<lambda>k. (of_nat k, deref_op ops c (position ops c k))) [0..<n]\<rparr>"
proof -
  let ?s = "loop_init ops (enumerate c) :: ('c, 'it, 'e, 'w word, 'r) loop_state"
  have a: "\<forall>j<n. neq_op ops ((incr_op ops ^^ j) (m_iterator (begin_obj ?s))) (end_obj ?s)"
    using assms(1) by (simp add: loop_init_simps enumerate_def position_def)
  have b: "\<not> neq_op ops ((incr_op ops ^^ n) (m_iterator (begin_obj ?s))) (end_obj ?s)"
    using assms(2) by (simp add: loop_init_simps enumerate_def position_def)
  have "loop ops ?s = Some ((loop_body ops ^^ n) ?s)"
    using a b by (rule loop_stops)
  then show ?thesis
    by (simp add: range_for_state_def loop_body_funpow operator_inc_funpow loop_init_simps
        enumerate_def position_def)
qed

lemma range_for_state_infinite:
  fixes ops :: "('c, 'it, 'e, 'r) iterable_ops"
  assumes "\<forall>k. neq_op ops (position ops c k) (end_op ops c)"
  shows "range_for_state ops (enumerate c) = (None :: ('c, 'it, 'e, 'w::len word, 'r) loop_state option)"
proof (rule ccontr)
  assume "range_for_state ops (enumerate c) \<noteq> (None :: ('c, 'it, 'e, 'w word, 'r) loop_state option)"
  then obtain s' :: "('c, 'it, 'e, 'w word, 'r) loop_state"
    where "loop ops (loop_init ops (enumerate c)) = Some s'"
    by (auto simp: range_for_state_def)
  from loop_Some_reaches_end[OF this] assms show False
    by (simp add: loop_init_simps enumerate_def position_def)
qed

lemma plain_for_finite:
  assumes "\<forall>k<n. neq_op ops (position ops c k) (end_op ops c)"
    and "\<not> neq_op ops (position ops c n) (end_op ops c)"
  shows "plain_for ops c = Some (map (\<lambda>k. deref_op ops c (position ops c k)) [0..<n])"
  using plain_loop_stops[of n ops "begin_op ops c" "end_op ops c" c "[]"] assms
  by (simp add: plain_for_def position_def)

lemma plain_for_infinite:
  assumes "\<forall>k. neq_op ops (position ops c k) (end_op ops c)"
  shows "plain_for ops c = None"
proof (rule ccontr)
  assume "plain_for ops c \<noteq> None"
  then obtain xs where "plain_loop ops c (begin_op ops c) (end_op ops c) [] = Some xs"
    by (auto simp: plain_for_def)
  from plain_loop_Some_reaches_end[OF this] assms show False
    by (simp add: position_def)
qed

lemma position_first_end:
  assumes "\<not> (\<forall>k. neq_op ops (position ops c k) (end_op ops c))"
  obtains n where "\<forall>k<n. neq_op ops (position ops c k) (end_op ops c)"
    and "\<not> neq_op ops (position ops c n) (end_op ops c)"
proof -
  from assms have "\<exists>k. \<not> neq_op ops ((incr_op ops ^^ k) (begin_op ops c)) (end_op ops c)"
    by (simp add: position_def)
  then obtain n where "\<forall>j<n. neq_op ops ((incr_op ops ^^ j) (begin_op ops c)) (end_op ops c)"
    and "\<not> neq_op ops ((incr_op ops ^^ n) (begin_op ops c)) (end_op ops c)"
    by (rule first_end)
  then show thesis using that by (simp add: position_def)
qed

lemma zip_indices_map:
  "zip (map f [0..<n]) (map g [0..<n]) = map (\<lambda>k. (f k, g k)) [0..<n]"
  by (induction n) simp_all

lemma range_for_plain_for:
  fixes ops :: "('c, 'it, 'e, 'r) iterable_ops"
  shows "(range_for ops (enumerate c) :: ('w::len word \<times> 'r) list option) =
         map_option (\<lambda>xs. zip (map of_nat [0..<length xs]) xs) (plain_for ops c)"
proof (cases "\<forall>k. neq_op ops (position ops c k) (end_op ops c)")
  case True
  then show ?thesis
    by (simp add: range_for_def range_for_state_infinite plain_for_infinite)
next
  case False
  then obtain n where n: "\<forall>k<n. neq_op ops (position ops c k) (end_op ops c)"
    "\<not> neq_op ops (position ops c n) (end_op ops c)"
    by (rule position_first_end)
  show ?thesis
    by (simp add: range_for_def range_for_state_finite[OF n] plain_for_finite[OF n] zip_indices_map)
qed

lemma vector_position: "position vector_ops xs k = k"
  by (induction k) (simp_all add: position_def vector_ops_def)

lemma plain_for_vector: "plain_for vector_ops xs = Some xs"
proof -
  have "plain_for vector_ops xs =
      Some (map (\<lambda>k. deref_op vector_ops xs (position vector_ops xs k)) [0..<length xs])"
    by (rule plain_for_finite) (simp_all add: vector_position, simp_all add: vector_ops_def)
  then show ?thesis
    by (simp add: vector_position) (simp add: vector_ops_def map_nth)
qed

lemma range_for_vector:
  "range_for vector_ops (enumerate xs) = Some (zip (map of_nat [0..<length xs]) xs)"
  by (simp add: range_for_plain_for plain_for_vector)

lemma range_for_state_Some:
  fixes ops :: "('c, 'it, 'e, 'r) iterable_ops"
    and s' :: "('c, 'it, 'e, 'w::len word, 'r) loop_state"
  assumes "range_for_state ops (enumerate c) = Some s'"
  obtains n where "\<forall>k<n. neq_op ops (position ops c k) (end_op ops c)"
    and "\<not> neq_op ops (position ops c n) (end_op ops c)"
    and "s' = \<lparr>range_obj = enumerate c,
               begin_obj = \<lparr>m_iterator = position ops c n, m_index = of_nat n\<rparr>,
               end_obj = end_op ops c,
               out = map (\<lambda>k. (of_nat k, deref_op ops c (position ops c k))) [0..<n]\<rparr>"
proof -
  have "\<not> (\<forall>k. neq_op ops (position ops c k) (end_op ops c))"
  proof
    assume "\<forall>k. neq_op ops (position ops c k) (end_op ops c)"
    then have "range_for_state ops (enumerate c) = (None :: ('c, 'it, 'e, 'w word, 'r) loop_state option)"
      by (rule range_for_state_infinite)
    with assms show False by simp
  qed
  then obtain n where n: "\<forall>k<n. neq_op ops (position ops c k) (end_op ops c)"
    "\<not> neq_op ops (position ops c n) (end_op ops c)"
    by (rule position_first_end)
  from range_for_state_finite[OF n, where 'w = 'w] assms
  have "s' = \<lparr>range_obj = enumerate c,
               begin_obj = \<lparr>m_iterator = position ops c n, m_index = of_nat n\<rparr>,
               end_obj = end_op ops c,
               out = map (\<lambda>k. (of_nat k, deref_op ops c (position ops c k))) [0..<n]\<rparr>"
    by simp
  with n show thesis using that by blast
qed

lemma unat_of_nat_upt:
  assumes "n \<le> 2 ^ LENGTH('w::len)"
  shows "map (\<lambda>k. unat (of_nat k :: 'w word)) [0..<n] = [0..<n]"
proof (rule nth_equalityI)
  show "length (map (\<lambda>k. unat (of_nat k :: 'w word)) [0..<n]) = length [0..<n]" by simp
next
  fix i assume "i < length (map (\<lambda>k. unat (of_nat k :: 'w word)) [0..<n])"
  then have "i < n" by simp
  with assms have "i < 2 ^ LENGTH('w)" by simp
  then have "unat (of_nat i :: 'w word) = i" by (simp add: unat_of_nat)
  with \<open>i < n\<close> show "map (\<lambda>k. unat (of_nat k :: 'w word)) [0..<n] ! i = [0..<n] ! i" by simp
qed

section \<open>The produced pairs\<close>

text \<open>
  Claim C1, as amended. Let the wrapped iterable be finite: traversed on its own it yields
  the list \<open>xs\<close>, of length \<open>N\<close>. Then traversing the adapter returned by
  \<^verbatim>\<open>xtr::enumerate\<close> terminates and yields exactly \<open>N\<close> pairs, whose element components
  are \<open>xs\<close> in the original order. For an unsigned integer index type of \<open>w\<close> bits, the
  index component of the \<open>k\<close>-th pair is \<open>k mod 2 ^ w\<close>: the indices are
  \<open>0, 1, ..., N - 1\<close> whenever \<open>N \<le> 2 ^ w\<close>. An empty iterable yields no pair, and
  \<^verbatim>\<open>["a", "b", "c"]\<close> with a 64-bit index yields \<^verbatim>\<open>(0, "a"), (1, "b"), (2, "c")\<close>.
\<close>

theorem enumerate_yields_indexed_elements:
  fixes ops :: "('c, 'it, 'e, 'r) iterable_ops"
  assumes "plain_for ops c = Some xs"
  shows "let ps = zip (map of_nat [0..<length xs]) xs :: ('w::len word \<times> 'r) list in
           range_for ops (enumerate c) = Some ps \<and>
           length ps = length xs \<and>
           map snd ps = xs \<and>
           map (unat \<circ> fst) ps = map (\<lambda>k. k mod 2 ^ LENGTH('w)) [0..<length xs] \<and>
           (length xs \<le> 2 ^ LENGTH('w) \<longrightarrow> map (unat \<circ> fst) ps = [0..<length xs])"
proof -
  let ?is = "map of_nat [0..<length xs] :: 'w word list"
  have run: "range_for ops (enumerate c) = Some (zip ?is xs)"
    using assms by (simp add: range_for_plain_for)
  have len: "length (zip ?is xs) = length xs" by simp
  have fsts: "map fst (zip ?is xs) = ?is" by (simp add: map_fst_zip)
  have snds: "map snd (zip ?is xs) = xs" by (simp add: map_snd_zip)
  have "map (unat \<circ> fst) (zip ?is xs) = map unat (map fst (zip ?is xs))"
    by (simp only: map_map)
  also have "\<dots> = map unat ?is"
    by (simp only: fsts)
  also have "\<dots> = map (\<lambda>k. unat (of_nat k :: 'w word)) [0..<length xs]"
    by (simp add: comp_def)
  finally have idx: "map (unat \<circ> fst) (zip ?is xs) = map (\<lambda>k. unat (of_nat k :: 'w word)) [0..<length xs]" .
  have wrap: "map (unat \<circ> fst) (zip ?is xs) = map (\<lambda>k. k mod 2 ^ LENGTH('w)) [0..<length xs]"
    unfolding idx by (simp add: unat_of_nat)
  have fit: "length xs \<le> 2 ^ LENGTH('w) \<longrightarrow> map (unat \<circ> fst) (zip ?is xs) = [0..<length xs]"
    unfolding idx by (simp add: unat_of_nat_upt)
  show ?thesis
    unfolding Let_def using run len snds wrap fit by blast
qed

text \<open>
  The scenario of the specification, with a 64-bit \<^verbatim>\<open>std::size_t\<close> as index type, and the
  empty sequence.
\<close>

theorem enumerate_abc_witness:
  "plain_for vector_ops [''a'', ''b'', ''c''] = Some [''a'', ''b'', ''c''] \<and>
   range_for vector_ops (enumerate [''a'', ''b'', ''c'']) =
     Some [(0 :: size_t, ''a''), (1, ''b''), (2, ''c'')] \<and>
   map (unat \<circ> fst) [(0 :: size_t, ''a''), (1, ''b''), (2, ''c'')] = [0, 1, 2] \<and>
   plain_for vector_ops ([] :: string list) = Some [] \<and>
   range_for vector_ops (enumerate ([] :: string list)) = Some ([] :: (size_t \<times> string) list)"
proof -
  have abc: "plain_for vector_ops [''a'', ''b'', ''c''] = Some [''a'', ''b'', ''c'']"
    by (rule plain_for_vector)
  have nil: "plain_for vector_ops ([] :: string list) = Some []"
    by (rule plain_for_vector)
  have upt3: "[0..<3] = [0, 1, 2]" by (simp add: upt_rec)
  show ?thesis
    using enumerate_yields_indexed_elements [OF abc, where 'w = 64]
      enumerate_yields_indexed_elements [OF nil, where 'w = 64] abc nil
    by (simp add: Let_def upt3)
qed

text \<open>
  Without the bound the indices are not \<open>0, ..., N - 1\<close>: with the explicit index type
  \<^verbatim>\<open>unsigned char\<close> and a vector of 257 elements, the counter wraps around after 256
  advancements and the last pair has the index 0.
\<close>

theorem enumerate_narrow_index_counterexample:
  "map_option (map (unat \<circ> fst))
     (range_for vector_ops (enumerate (replicate 257 False)) :: (8 word \<times> bool) list option)
   \<noteq> Some [0..<257]"
proof
  assume a: "map_option (map (unat \<circ> fst))
     (range_for vector_ops (enumerate (replicate 257 False)) :: (8 word \<times> bool) list option)
     = Some [0..<257]"
  have "map (unat \<circ> fst) (zip (map of_nat [0..<257] :: 8 word list) (replicate 257 False)) ! 256
        = unat (of_nat 256 :: 8 word)"
    by simp
  moreover from a have "map (unat \<circ> fst) (zip (map of_nat [0..<257] :: 8 word list) (replicate 257 False)) = [0..<257]"
    by (simp add: range_for_vector)
  ultimately have "unat (of_nat 256 :: 8 word) = [0..<257] ! 256" by simp
  then show False by simp
qed

lemma loop_body_funpow_init:
  fixes ops :: "('c, 'it, 'e, 'r) iterable_ops"
  shows "((loop_body ops ^^ k) (loop_init ops e) :: ('c, 'it, 'e, 'w::len word, 'r) loop_state) =
     \<lparr>range_obj = e,
      begin_obj = \<lparr>m_iterator = position ops (m_iterable e) k, m_index = of_nat k\<rparr>,
      end_obj = end_op ops (m_iterable e),
      out = map (\<lambda>j. (of_nat j, deref_op ops (m_iterable e) (position ops (m_iterable e) j))) [0..<k]\<rparr>"
  by (simp add: loop_body_funpow operator_inc_funpow loop_init_simps position_def)

section \<open>The index counter\<close>

text \<open>
  Claim C2, as amended. The index counter is zero at construction; \<^verbatim>\<open>operator++\<close> adds
  exactly one to it and \<^verbatim>\<open>operator*\<close> leaves it as it is (\<^verbatim>\<open>operator!=\<close> is a const
  member and no other member exists). After \<open>k\<close> iterations of the traversal, \<open>k\<close> pairs
  have been produced, the pair produced at step \<open>j\<close> carries \<open>j\<close> converted to the index
  type, and the counter holds the number of pairs produced so far converted to the index
  type: its value is that number modulo \<open>2 ^ w\<close> for an unsigned index type of \<open>w\<close> bits,
  and is that number itself as long as it is below \<open>2 ^ w\<close>.
\<close>

theorem index_counter_counts_advancements:
  fixes ops :: "('c, 'it, 'e, 'r) iterable_ops"
    and this :: "('it, 'w::len word) indexed_iterator"
  shows "m_index (indexed_iterator iterator :: ('it, 'w word) indexed_iterator) = 0 \<and>
         m_index (operator_inc ops this) = m_index this + 1 \<and>
         m_index (snd (operator_deref ops c this)) = m_index this \<and>
         (let s = (loop_body ops ^^ k) (loop_init ops e) :: ('c, 'it, 'e, 'w word, 'r) loop_state in
            length (out s) = k \<and>
            map fst (out s) = map of_nat [0..<k] \<and>
            m_index (begin_obj s) = of_nat (length (out s)) \<and>
            unat (m_index (begin_obj s)) = length (out s) mod 2 ^ LENGTH('w) \<and>
            (k < 2 ^ LENGTH('w) \<longrightarrow> unat (m_index (begin_obj s)) = length (out s)))"
proof -
  have init: "m_index (indexed_iterator iterator :: ('it, 'w word) indexed_iterator) = 0"
    by (simp add: indexed_iterator_def)
  have inc: "m_index (operator_inc ops this) = m_index this + 1"
    by (simp add: operator_inc_def Let_def)
  have deref: "m_index (snd (operator_deref ops c this)) = m_index this"
    by (simp add: operator_deref_def)
  let ?s = "(loop_body ops ^^ k) (loop_init ops e) :: ('c, 'it, 'e, 'w word, 'r) loop_state"
  have len: "length (out ?s) = k"
    by (simp add: loop_body_funpow_init)
  have fsts: "map fst (out ?s) = map of_nat [0..<k]"
    by (simp add: loop_body_funpow_init comp_def)
  have idx: "m_index (begin_obj ?s) = of_nat (length (out ?s))"
    by (simp add: loop_body_funpow_init)
  have wrap: "unat (m_index (begin_obj ?s)) = length (out ?s) mod 2 ^ LENGTH('w)"
    unfolding idx by (rule unat_of_nat)
  have fit: "k < 2 ^ LENGTH('w) \<longrightarrow> unat (m_index (begin_obj ?s)) = length (out ?s)"
    unfolding wrap len by simp
  show ?thesis
    unfolding Let_def using init inc deref len fsts idx wrap fit by blast
qed

text \<open>Two steps into the traversal of \<^verbatim>\<open>["a", "b", "c"]\<close> with a 64-bit index.\<close>

theorem index_counter_witness:
  "(2 :: nat) < 2 ^ LENGTH(64) \<and>
   unat (m_index (begin_obj ((loop_body vector_ops ^^ 2)
       (loop_init vector_ops (enumerate [''a'', ''b'', ''c''])) ::
         (string list, nat, nat, size_t, string) loop_state))) =
   length (out ((loop_body vector_ops ^^ 2)
       (loop_init vector_ops (enumerate [''a'', ''b'', ''c''])) ::
         (string list, nat, nat, size_t, string) loop_state))"
  using index_counter_counts_advancements
    [where 'w = 64 and ops = "vector_ops :: (string list, nat, nat, string) iterable_ops"
       and k = 2 and e = "enumerate [''a'', ''b'', ''c'']"]
  by (simp add: Let_def)

text \<open>
  The counter does return to zero: with the index type \<^verbatim>\<open>unsigned char\<close>, 256 steps into
  the traversal of a vector of 300 elements, 256 pairs have been produced and the index
  observed is 0.
\<close>

theorem index_counter_wraps_counterexample:
  "unat (m_index (begin_obj ((loop_body vector_ops ^^ 256)
       (loop_init vector_ops (enumerate (replicate 300 False))) ::
         (bool list, nat, nat, 8 word, bool) loop_state))) \<noteq>
   length (out ((loop_body vector_ops ^^ 256)
       (loop_init vector_ops (enumerate (replicate 300 False))) ::
         (bool list, nat, nat, 8 word, bool) loop_state))"
  by (simp add: loop_body_funpow_init)

section \<open>Advancement and termination\<close>

text \<open>
  Claim C3. One call of \<^verbatim>\<open>operator++\<close> advances the wrapped position and increments the
  index counter. The continuation test \<^verbatim>\<open>operator!=\<close> is the comparison of the wrapped
  position with the sentinel and does not depend on the index; the sentinel is the wrapped
  iterable's own \<^verbatim>\<open>end\<close>. The traversal terminates exactly when some position of the
  wrapped iterable compares equal to its sentinel, and it stops at the first such
  position: every earlier position compared unequal.
\<close>

theorem advancement_and_termination:
  fixes ops :: "('c, 'it, 'e, 'r) iterable_ops"
    and this :: "('it, 'w::len word) indexed_iterator"
  shows "operator_inc ops this =
           \<lparr>m_iterator = incr_op ops (m_iterator this), m_index = m_index this + 1\<rparr> \<and>
         operator_neq ops this en = neq_op ops (m_iterator this) en \<and>
         operator_neq ops (this\<lparr>m_index := i\<rparr>) en = operator_neq ops this en \<and>
         end_enumerator ops (enumerate c) = end_op ops c \<and>
         ((range_for_state ops (enumerate c) :: ('c, 'it, 'e, 'w word, 'r) loop_state option) \<noteq> None) =
           (\<exists>n. \<not> neq_op ops (position ops c n) (end_op ops c)) \<and>
         (\<forall>s' :: ('c, 'it, 'e, 'w word, 'r) loop_state.
            range_for_state ops (enumerate c) = Some s' \<longrightarrow>
              \<not> operator_neq ops (begin_obj s') (end_obj s') \<and>
              m_iterator (begin_obj s') = position ops c (length (out s')) \<and>
              \<not> neq_op ops (position ops c (length (out s'))) (end_op ops c) \<and>
              (\<forall>k < length (out s'). neq_op ops (position ops c k) (end_op ops c)))"
proof -
  have inc: "operator_inc ops this =
      \<lparr>m_iterator = incr_op ops (m_iterator this), m_index = m_index this + 1\<rparr>"
    by (simp add: operator_inc_def Let_def)
  have neq: "operator_neq ops this en = neq_op ops (m_iterator this) en"
    by (simp add: operator_neq_def)
  have no_index: "operator_neq ops (this\<lparr>m_index := i\<rparr>) en = operator_neq ops this en"
    by (simp add: operator_neq_def)
  have sentinel: "end_enumerator ops (enumerate c) = end_op ops c"
    by (simp add: end_enumerator_def enumerate_def)
  have stops: "((range_for_state ops (enumerate c) :: ('c, 'it, 'e, 'w word, 'r) loop_state option) \<noteq> None) =
      (\<exists>n. \<not> neq_op ops (position ops c n) (end_op ops c))"
  proof (cases "\<forall>k. neq_op ops (position ops c k) (end_op ops c)")
    case True
    then show ?thesis by (simp add: range_for_state_infinite)
  next
    case False
    then obtain n where n: "\<forall>k<n. neq_op ops (position ops c k) (end_op ops c)"
      "\<not> neq_op ops (position ops c n) (end_op ops c)"
      by (rule position_first_end)
    from False show ?thesis by (simp add: range_for_state_finite[OF n])
  qed
  have final: "\<forall>s' :: ('c, 'it, 'e, 'w word, 'r) loop_state.
      range_for_state ops (enumerate c) = Some s' \<longrightarrow>
        \<not> operator_neq ops (begin_obj s') (end_obj s') \<and>
        m_iterator (begin_obj s') = position ops c (length (out s')) \<and>
        \<not> neq_op ops (position ops c (length (out s'))) (end_op ops c) \<and>
        (\<forall>k < length (out s'). neq_op ops (position ops c k) (end_op ops c))"
  proof (intro allI impI)
    fix s' :: "('c, 'it, 'e, 'w word, 'r) loop_state"
    assume "range_for_state ops (enumerate c) = Some s'"
    then obtain n where n: "\<forall>k<n. neq_op ops (position ops c k) (end_op ops c)"
      "\<not> neq_op ops (position ops c n) (end_op ops c)"
      and s': "s' = \<lparr>range_obj = enumerate c,
               begin_obj = \<lparr>m_iterator = position ops c n, m_index = of_nat n\<rparr>,
               end_obj = end_op ops c,
               out = map (\<lambda>k. (of_nat k, deref_op ops c (position ops c k))) [0..<n]\<rparr>"
      by (rule range_for_state_Some)
    from n show "\<not> operator_neq ops (begin_obj s') (end_obj s') \<and>
        m_iterator (begin_obj s') = position ops c (length (out s')) \<and>
        \<not> neq_op ops (position ops c (length (out s'))) (end_op ops c) \<and>
        (\<forall>k < length (out s'). neq_op ops (position ops c k) (end_op ops c))"
      by (simp add: s' operator_neq_def)
  qed
  show ?thesis
    by (intro conjI inc neq no_index sentinel stops final)
qed

lemma vector_ops_simps:
  "end_op vector_ops xs = length xs"
  "deref_op vector_ops xs p = xs ! p"
  "neq_op vector_ops p e = (p \<noteq> e)"
  by (simp_all add: vector_ops_def)

lemma zip_indices_nth:
  "zip (map f [0..<length xs]) xs = map (\<lambda>k. (f k, xs ! k)) [0..<length xs]"
proof -
  have "zip (map f [0..<length xs]) (map (\<lambda>k. xs ! k) [0..<length xs]) =
      map (\<lambda>k. (f k, xs ! k)) [0..<length xs]"
    by (rule zip_indices_map)
  then show ?thesis by (simp add: map_nth)
qed

lemma range_for_state_vector:
  "(range_for_state vector_ops (enumerate xs) :: ('a list, nat, nat, 'w::len word, 'a) loop_state option) =
     Some \<lparr>range_obj = enumerate xs,
           begin_obj = \<lparr>m_iterator = length xs, m_index = of_nat (length xs)\<rparr>,
           end_obj = length xs,
           out = zip (map of_nat [0..<length xs]) xs\<rparr>"
proof -
  have a: "\<forall>k<length xs. neq_op vector_ops (position vector_ops xs k) (end_op vector_ops xs)"
    by (simp add: vector_position vector_ops_simps)
  have b: "\<not> neq_op vector_ops (position vector_ops xs (length xs)) (end_op vector_ops xs)"
    by (simp add: vector_position vector_ops_simps)
  show ?thesis
    using range_for_state_finite[OF a b, where 'w = 'w]
    by (simp add: vector_position vector_ops_simps zip_indices_nth)
qed

lemma vector_dereferences_in_bounds:
  fixes s' :: "('a list, nat, nat, 'w::len word, 'a) loop_state"
  assumes "range_for_state vector_ops (enumerate xs) = Some s'"
  shows "\<forall>k<length (out s'). position vector_ops xs k < length xs"
  using assms by (auto simp: range_for_state_vector vector_position)

text \<open>The traversal of \<^verbatim>\<open>["a", "b", "c"]\<close> stops at offset 3, the end of the vector.\<close>

theorem advancement_and_termination_witness:
  "(range_for_state vector_ops (enumerate [''a'', ''b'', ''c'']) ::
      (string list, nat, nat, size_t, string) loop_state option) =
     Some \<lparr>range_obj = enumerate [''a'', ''b'', ''c''],
           begin_obj = \<lparr>m_iterator = 3, m_index = 3\<rparr>,
           end_obj = 3,
           out = [(0, ''a''), (1, ''b''), (2, ''c'')]\<rparr> \<and>
   \<not> operator_neq (vector_ops :: (string list, nat, nat, string) iterable_ops)
       \<lparr>m_iterator = 3, m_index = 3 :: size_t\<rparr> 3 \<and>
   position (vector_ops :: (string list, nat, nat, string) iterable_ops) [''a'', ''b'', ''c''] 3 = 3"
proof -
  let ?ops = "vector_ops :: (string list, nat, nat, string) iterable_ops"
  let ?abc = "[''a'', ''b'', ''c'']"
  let ?s = "\<lparr>range_obj = enumerate ?abc,
           begin_obj = \<lparr>m_iterator = 3 :: nat, m_index = 3 :: size_t\<rparr>,
           end_obj = 3 :: nat,
           out = [(0, ''a''), (1, ''b''), (2, ''c'')]\<rparr>"
  have upt3: "[0..<3] = [0, 1, 2]" by (simp add: upt_rec)
  have run: "range_for_state ?ops (enumerate ?abc) = Some ?s"
    by (simp add: range_for_state_vector upt3)
  have "\<forall>s' :: (string list, nat, nat, size_t, string) loop_state.
      range_for_state ?ops (enumerate ?abc) = Some s' \<longrightarrow>
        \<not> operator_neq ?ops (begin_obj s') (end_obj s') \<and>
        m_iterator (begin_obj s') = position ?ops ?abc (length (out s')) \<and>
        \<not> neq_op ?ops (position ?ops ?abc (length (out s'))) (end_op ?ops ?abc) \<and>
        (\<forall>k < length (out s'). neq_op ?ops (position ?ops ?abc k) (end_op ?ops ?abc))"
    by (rule advancement_and_termination
      [where 'w = 64 and ops = ?ops and c = ?abc,
        THEN conjunct2, THEN conjunct2, THEN conjunct2, THEN conjunct2, THEN conjunct2])
  from this[rule_format, OF run] run show ?thesis
    by (simp add: vector_position)
qed

section \<open>Dereferencing\<close>

lemma add_const_t_not_reference:
  "\<not> is_reference_v T \<Longrightarrow> is_const_v (add_const_t T) \<and> \<not> is_reference_v (add_const_t T)"
  by (cases T) (simp_all add: is_reference_v_def)

lemma indexed_iterator_inst_Inr:
  assumes "indexed_iterator_inst Iterator Index Deref = Inr cls"
  shows "is_reference_v Iterator" and "\<not> is_reference_v Index"
    and "cls = \<lparr>iterator_type = Iterator, m_iterator_t = get_stored_t Iterator, index_type = Index,
                 m_index_t = Index, dereference_result_type = StdTuple [add_const_t Index, Deref]\<rparr>"
  using assms
  by (auto simp: indexed_iterator_inst_def indexed_iterator_base_inst_def split: if_splits)

text \<open>
  Claim C4. The pair returned by \<^verbatim>\<open>operator*\<close> holds the index and exactly what
  dereferencing the wrapped position gives; its type is
  \<^verbatim>\<open>std::tuple<const index_type, decltype(*it)>\<close>, so that a reference stays the reference
  it is. An iteration of the loop leaves the enumerator, and with it the wrapped iterable,
  and the sentinel as they are: it changes the iterator object (the wrapped position and
  the index counter) and appends to the output. After a traversal the enumerator still
  holds the iterable it was given, and the element components produced are what
  dereferencing the successive positions of the iterable gives, that is, what traversing
  the iterable without the adapter yields.
\<close>

theorem enumeration_preserves_elements:
  fixes ops :: "('c, 'it, 'e, 'r) iterable_ops"
    and this :: "('it, 'w::len word) indexed_iterator"
    and s :: "('c, 'it, 'e, 'w word, 'r) loop_state"
  shows "fst (operator_deref ops c this) = (m_index this, deref_op ops c (m_iterator this)) \<and>
         (\<forall>cls. indexed_iterator_inst Iterator Index Deref = Inr cls \<longrightarrow>
            dereference_result_type cls = StdTuple [add_const_t Index, Deref]) \<and>
         range_obj (loop_body ops s) = range_obj s \<and>
         end_obj (loop_body ops s) = end_obj s \<and>
         (\<forall>s' :: ('c, 'it, 'e, 'w word, 'r) loop_state.
            range_for_state ops (enumerate c) = Some s' \<longrightarrow>
              range_obj s' = enumerate c \<and>
              m_iterable (range_obj s') = c \<and>
              end_obj s' = end_op ops c \<and>
              map snd (out s') =
                map (\<lambda>k. deref_op ops c (position ops c k)) [0..<length (out s')]) \<and>
         map_option (map snd) (range_for ops (enumerate c) :: ('w word \<times> 'r) list option) =
           plain_for ops c"
proof -
  have deref: "fst (operator_deref ops c this) = (m_index this, deref_op ops c (m_iterator this))"
    by (simp add: operator_deref_def)
  have tuple: "\<forall>cls. indexed_iterator_inst Iterator Index Deref = Inr cls \<longrightarrow>
      dereference_result_type cls = StdTuple [add_const_t Index, Deref]"
    by (auto dest: indexed_iterator_inst_Inr(3))
  have frame_range: "range_obj (loop_body ops s) = range_obj s"
    by (simp add: loop_body_def operator_deref_def)
  have frame_end: "end_obj (loop_body ops s) = end_obj s"
    by (simp add: loop_body_def operator_deref_def)
  have final: "\<forall>s' :: ('c, 'it, 'e, 'w word, 'r) loop_state.
      range_for_state ops (enumerate c) = Some s' \<longrightarrow>
        range_obj s' = enumerate c \<and>
        m_iterable (range_obj s') = c \<and>
        end_obj s' = end_op ops c \<and>
        map snd (out s') = map (\<lambda>k. deref_op ops c (position ops c k)) [0..<length (out s')]"
  proof (intro allI impI)
    fix s' :: "('c, 'it, 'e, 'w word, 'r) loop_state"
    assume "range_for_state ops (enumerate c) = Some s'"
    then obtain n where s': "s' = \<lparr>range_obj = enumerate c,
               begin_obj = \<lparr>m_iterator = position ops c n, m_index = of_nat n\<rparr>,
               end_obj = end_op ops c,
               out = map (\<lambda>k. (of_nat k, deref_op ops c (position ops c k))) [0..<n]\<rparr>"
      by (rule range_for_state_Some)
    show "range_obj s' = enumerate c \<and>
        m_iterable (range_obj s') = c \<and>
        end_obj s' = end_op ops c \<and>
        map snd (out s') = map (\<lambda>k. deref_op ops c (position ops c k)) [0..<length (out s')]"
      by (simp add: s' enumerate_def comp_def)
  qed
  have elements: "map_option (map snd) (range_for ops (enumerate c) :: ('w word \<times> 'r) list option) =
      plain_for ops c"
    by (simp add: range_for_plain_for option.map_comp comp_def map_snd_zip option.map_ident)
  show ?thesis
    by (intro conjI deref tuple frame_range frame_end final elements)
qed

text \<open>The traversal of a \<^verbatim>\<open>std::vector<std::string>\<close> holding \<^verbatim>\<open>["a", "b", "c"]\<close>.\<close>

theorem enumeration_preserves_elements_witness:
  "(range_for_state vector_ops (enumerate [''a'', ''b'', ''c'']) ::
      (string list, nat, nat, size_t, string) loop_state option) =
     Some \<lparr>range_obj = enumerate [''a'', ''b'', ''c''],
           begin_obj = \<lparr>m_iterator = 3, m_index = 3\<rparr>,
           end_obj = 3,
           out = [(0, ''a''), (1, ''b''), (2, ''c'')]\<rparr> \<and>
   m_iterable (enumerate [''a'', ''b'', ''c'']) = [''a'', ''b'', ''c''] \<and>
   map snd [(0 :: size_t, ''a''), (1, ''b''), (2, ''c'')] = [''a'', ''b'', ''c''] \<and>
   indexed_iterator_inst (RRef (IncClass ''std::vector<std::string>::iterator'')) std_size_t
       (LRef (Class ''std::string'' (Some std_size_t))) =
     Inr \<lparr>iterator_type = RRef (IncClass ''std::vector<std::string>::iterator''),
          m_iterator_t = IncClass ''std::vector<std::string>::iterator'',
          index_type = std_size_t, m_index_t = std_size_t,
          dereference_result_type =
            StdTuple [Const std_size_t, LRef (Class ''std::string'' (Some std_size_t))]\<rparr>"
proof -
  let ?ops = "vector_ops :: (string list, nat, nat, string) iterable_ops"
  let ?abc = "[''a'', ''b'', ''c'']"
  let ?s = "\<lparr>range_obj = enumerate ?abc,
           begin_obj = \<lparr>m_iterator = 3 :: nat, m_index = 3 :: size_t\<rparr>,
           end_obj = 3 :: nat,
           out = [(0, ''a''), (1, ''b''), (2, ''c'')]\<rparr>"
  let ?It = "RRef (IncClass ''std::vector<std::string>::iterator'')"
  let ?D = "LRef (Class ''std::string'' (Some std_size_t))"
  let ?cls = "\<lparr>iterator_type = ?It,
          m_iterator_t = IncClass ''std::vector<std::string>::iterator'',
          index_type = std_size_t, m_index_t = std_size_t,
          dereference_result_type = StdTuple [Const std_size_t, ?D]\<rparr>"
  have upt3: "[0..<3] = [0, 1, 2]" by (simp add: upt_rec)
  have run: "range_for_state ?ops (enumerate ?abc) = Some ?s"
    by (simp add: range_for_state_vector upt3)
  have inst: "indexed_iterator_inst ?It std_size_t ?D = Inr ?cls"
    by (simp add: indexed_iterator_inst_def indexed_iterator_base_inst_def is_reference_v_def
        get_stored_t_def std_size_t_def)
  note main = enumeration_preserves_elements
      [where 'w = 64 and ops = ?ops and c = ?abc and Iterator = ?It and Index = std_size_t
        and Deref = ?D]
  have a: "\<forall>cls. indexed_iterator_inst ?It std_size_t ?D = Inr cls \<longrightarrow>
      dereference_result_type cls = StdTuple [add_const_t std_size_t, ?D]"
    by (rule main [THEN conjunct2, THEN conjunct1])
  have b: "\<forall>s' :: (string list, nat, nat, size_t, string) loop_state.
      range_for_state ?ops (enumerate ?abc) = Some s' \<longrightarrow>
        range_obj s' = enumerate ?abc \<and>
        m_iterable (range_obj s') = ?abc \<and>
        end_obj s' = end_op ?ops ?abc \<and>
        map snd (out s') = map (\<lambda>k. deref_op ?ops ?abc (position ?ops ?abc k)) [0..<length (out s')]"
    by (rule main [THEN conjunct2, THEN conjunct2, THEN conjunct2, THEN conjunct2, THEN conjunct1])
  from a[rule_format, OF inst] b[rule_format, OF run] run inst show ?thesis
    by simp
qed

text \<open>
  Claim C10. \<^verbatim>\<open>operator*\<close> leaves the iterator object as it is, however often it is
  called, and returns the same pair each time, whose index component is the value of the
  counter. The advancement that follows is the one that would have followed without the
  call. The index component of the pair has the type \<^verbatim>\<open>const index_type\<close>, which is
  const and is not a reference: the pair holds a copy of the counter, through which the
  counter cannot be reached.
\<close>

theorem dereference_is_repeatable:
  fixes ops :: "('c, 'it, 'e, 'r) iterable_ops"
    and this :: "('it, 'w::len word) indexed_iterator"
  shows "snd (operator_deref ops c this) = this \<and>
         ((\<lambda>t. snd (operator_deref ops c t)) ^^ n) this = this \<and>
         fst (operator_deref ops c (((\<lambda>t. snd (operator_deref ops c t)) ^^ n) this)) =
           fst (operator_deref ops c this) \<and>
         fst (fst (operator_deref ops c this)) = m_index this \<and>
         operator_inc ops (snd (operator_deref ops c this)) = operator_inc ops this \<and>
         (\<forall>cls. indexed_iterator_inst Iterator Index Deref = Inr cls \<longrightarrow>
            dereference_result_type cls = StdTuple [add_const_t Index, Deref] \<and>
            is_const_v (add_const_t Index) \<and>
            \<not> is_reference_v (add_const_t Index))"
proof -
  have same: "snd (operator_deref ops c this) = this"
    by (simp add: operator_deref_def)
  have many: "((\<lambda>t. snd (operator_deref ops c t)) ^^ n) this = this"
    by (induction n) (simp_all add: operator_deref_def)
  have value_again: "fst (operator_deref ops c (((\<lambda>t. snd (operator_deref ops c t)) ^^ n) this)) =
      fst (operator_deref ops c this)"
    by (simp only: many)
  have index: "fst (fst (operator_deref ops c this)) = m_index this"
    by (simp add: operator_deref_def)
  have next_step: "operator_inc ops (snd (operator_deref ops c this)) = operator_inc ops this"
    by (simp only: same)
  have copy: "\<forall>cls. indexed_iterator_inst Iterator Index Deref = Inr cls \<longrightarrow>
      dereference_result_type cls = StdTuple [add_const_t Index, Deref] \<and>
      is_const_v (add_const_t Index) \<and>
      \<not> is_reference_v (add_const_t Index)"
  proof (intro allI impI)
    fix cls assume inst: "indexed_iterator_inst Iterator Index Deref = Inr cls"
    from indexed_iterator_inst_Inr(2)[OF inst] have "is_const_v (add_const_t Index) \<and> \<not> is_reference_v (add_const_t Index)"
      by (rule add_const_t_not_reference)
    with indexed_iterator_inst_Inr(3)[OF inst]
    show "dereference_result_type cls = StdTuple [add_const_t Index, Deref] \<and>
      is_const_v (add_const_t Index) \<and> \<not> is_reference_v (add_const_t Index)"
      by simp
  qed
  show ?thesis
    by (intro conjI same many value_again index next_step copy)
qed

text \<open>The iterator of \<^verbatim>\<open>xtr::enumerate\<close> over a \<^verbatim>\<open>std::vector<int>\<close>.\<close>

theorem dereference_is_repeatable_witness:
  "indexed_iterator_inst (RRef (IncClass ''std::vector<int>::iterator'')) std_size_t
       (LRef (Scalar ''int'')) =
     Inr \<lparr>iterator_type = RRef (IncClass ''std::vector<int>::iterator''),
          m_iterator_t = IncClass ''std::vector<int>::iterator'',
          index_type = std_size_t, m_index_t = std_size_t,
          dereference_result_type = StdTuple [Const std_size_t, LRef (Scalar ''int'')]\<rparr> \<and>
   is_const_v (Const std_size_t) \<and> \<not> is_reference_v (Const std_size_t)"
proof -
  let ?It = "RRef (IncClass ''std::vector<int>::iterator'')"
  let ?D = "LRef (Scalar ''int'')"
  let ?cls = "\<lparr>iterator_type = ?It,
          m_iterator_t = IncClass ''std::vector<int>::iterator'',
          index_type = std_size_t, m_index_t = std_size_t,
          dereference_result_type = StdTuple [Const std_size_t, ?D]\<rparr>"
  have inst: "indexed_iterator_inst ?It std_size_t ?D = Inr ?cls"
    by (simp add: indexed_iterator_inst_def indexed_iterator_base_inst_def is_reference_v_def
        get_stored_t_def std_size_t_def)
  have "\<forall>cls. indexed_iterator_inst ?It std_size_t ?D = Inr cls \<longrightarrow>
      dereference_result_type cls = StdTuple [add_const_t std_size_t, ?D] \<and>
      is_const_v (add_const_t std_size_t) \<and>
      \<not> is_reference_v (add_const_t std_size_t)"
    by (rule dereference_is_repeatable
        [where Iterator = ?It and Index = std_size_t and Deref = ?D,
         THEN conjunct2, THEN conjunct2, THEN conjunct2, THEN conjunct2, THEN conjunct2])
  from this[rule_format, OF inst] inst show ?thesis
    by (simp add: std_size_t_def)
qed

section \<open>The types selected by the templates\<close>

lemma add_rvalue_reference_t_is_reference:
  "is_reference_v (add_rvalue_reference_t T) = (is_object_v T \<or> is_reference_v T)"
  by (cases T) (simp_all add: is_reference_v_def)

lemma remove_add_rvalue_reference_t:
  "remove_reference_t (add_rvalue_reference_t T) = remove_reference_t T"
  by (cases T) simp_all

lemma incrementable_object:
  "incrementable T \<Longrightarrow> is_object_v T \<and> \<not> is_reference_v T"
  by (cases T) (simp_all add: is_reference_v_def)

lemma enumerator_inst_eq:
  "enumerator_inst Iterable Index =
     (if \<not> is_reference_v Iterable
      then Inl (static_assert_failed ''iterable_type must be a reference'')
      else if is_reference_v Index
      then Inl (static_assert_failed ''index_type must not be a reference'')
      else Inr \<lparr>iterable_type = Iterable, m_iterable_t = get_stored_t Iterable,
                enumerator_index_type = Index\<rparr>)"
  by (simp add: enumerator_inst_def enumerator_base_inst_def)

lemma indexed_iterator_inst_eq:
  "indexed_iterator_inst Iterator Index Deref =
     (if \<not> is_reference_v Iterator
      then Inl (static_assert_failed ''iterator_type must be a reference'')
      else if is_reference_v Index
      then Inl (static_assert_failed ''index_type must not be a reference'')
      else if \<not> is_object_v Index
      then Inl (ill_formed ''index_type m_index'')
      else if \<not> incrementable (remove_reference_t Iterator)
      then Inl (ill_formed ''++declval<add_lvalue_reference_t<iterator_type>>()'')
      else if \<not> incrementable Index
      then Inl (ill_formed ''++declval<add_lvalue_reference_t<index_type>>()'')
      else Inr \<lparr>iterator_type = Iterator, m_iterator_t = get_stored_t Iterator,
                index_type = Index, m_index_t = Index,
                dereference_result_type = StdTuple [add_const_t Index, Deref]\<rparr>)"
  by (simp add: indexed_iterator_inst_def indexed_iterator_base_inst_def)

lemma enumerate_t_eq:
  "enumerate_t Iterable Index =
     (let I = (case Index of Some I \<Rightarrow> I | None \<Rightarrow> get_index_t Iterable) in
      if \<not> (is_object_v Iterable \<or> is_reference_v Iterable)
      then Inl (static_assert_failed ''iterable_type must be a reference'')
      else if is_reference_v I
      then Inl (static_assert_failed ''index_type must not be a reference'')
      else Inr \<lparr>iterable_type = add_rvalue_reference_t Iterable,
                m_iterable_t = get_stored_t (add_rvalue_reference_t Iterable),
                enumerator_index_type = I\<rparr>)"
  by (simp add: enumerate_t_def enumerate_result_type_def enumerator_inst_eq
      add_rvalue_reference_t_is_reference Let_def)

lemma begin_t_Inr:
  assumes "begin_t object Begin Deref = Inr it"
  shows "it = \<lparr>iterator_type = add_rvalue_reference_t Begin,
               m_iterator_t = get_stored_t (add_rvalue_reference_t Begin),
               index_type = enumerator_index_type object,
               m_index_t = enumerator_index_type object,
               dereference_result_type =
                 StdTuple [add_const_t (enumerator_index_type object), Deref]\<rparr>"
  using assms
  by (auto simp: begin_t_def begin_result_type_def indexed_iterator_inst_eq split: if_splits)

lemma begin_t_accepts:
  assumes "incrementable (enumerator_index_type object)"
    and "incrementable (remove_reference_t Begin)"
  shows "begin_t object Begin Deref =
     Inr \<lparr>iterator_type = add_rvalue_reference_t Begin,
          m_iterator_t = get_stored_t (add_rvalue_reference_t Begin),
          index_type = enumerator_index_type object,
          m_index_t = enumerator_index_type object,
          dereference_result_type =
            StdTuple [add_const_t (enumerator_index_type object), Deref]\<rparr>"
proof -
  from assms(2) have "is_object_v Begin \<or> is_reference_v Begin"
    by (cases Begin) (simp_all add: is_reference_v_def)
  with assms incrementable_object[OF assms(1)] show ?thesis
    by (simp add: begin_t_def begin_result_type_def indexed_iterator_inst_eq
        add_rvalue_reference_t_is_reference remove_add_rvalue_reference_t)
qed

text \<open>
  Claim C5. Whenever \<^verbatim>\<open>xtr::enumerate\<close> and \<^verbatim>\<open>begin\<close> of its result are instantiated, the
  index type of the iterator, which is the type of \<^verbatim>\<open>m_index\<close>, is the explicit index type
  when one is supplied; when it is omitted, it is the nested type \<^verbatim>\<open>size_type\<close> of the
  iterable (its reference removed) when that type exists, and \<^verbatim>\<open>std::size_t\<close> otherwise.
  The index component of the produced pairs has this type, const-qualified.
\<close>

theorem index_type_selection:
  "\<forall>object it.
     enumerate_t Iterable Index = Inr object \<longrightarrow> begin_t object Begin Deref = Inr it \<longrightarrow>
       index_type it =
         (case Index of
            Some I \<Rightarrow> I
          | None \<Rightarrow>
              (case size_type_of (remove_reference_t Iterable) of
                 Some s \<Rightarrow> s
               | None \<Rightarrow> std_size_t)) \<and>
       enumerator_index_type object = index_type it \<and>
       m_index_t it = index_type it \<and>
       dereference_result_type it = StdTuple [add_const_t (index_type it), Deref]"
proof (intro allI impI)
  fix object it
  assume e: "enumerate_t Iterable Index = Inr object" and b: "begin_t object Begin Deref = Inr it"
  from e have obj: "enumerator_index_type object =
      (case Index of Some I \<Rightarrow> I | None \<Rightarrow> get_index_t Iterable)"
    by (auto simp: enumerate_t_eq Let_def split: if_splits)
  from begin_t_Inr[OF b] have it: "index_type it = enumerator_index_type object"
    "m_index_t it = enumerator_index_type object"
    "dereference_result_type it = StdTuple [add_const_t (enumerator_index_type object), Deref]"
    by simp_all
  show "index_type it =
         (case Index of
            Some I \<Rightarrow> I
          | None \<Rightarrow>
              (case size_type_of (remove_reference_t Iterable) of
                 Some s \<Rightarrow> s
               | None \<Rightarrow> std_size_t)) \<and>
       enumerator_index_type object = index_type it \<and>
       m_index_t it = index_type it \<and>
       dereference_result_type it = StdTuple [add_const_t (index_type it), Deref]"
    using obj it by (simp add: get_index_t_def split: option.split)
qed

text \<open>
  An explicit \<^verbatim>\<open>unsigned char\<close> over a named \<^verbatim>\<open>std::vector<int>\<close>; a class whose
  \<^verbatim>\<open>size_type\<close> is \<^verbatim>\<open>unsigned short\<close>; a class with no \<^verbatim>\<open>size_type\<close>.
\<close>

theorem index_type_selection_witness:
  "enumerate_t (LRef (Class ''std::vector<int>'' (Some std_size_t))) (Some (Scalar ''unsigned char'')) =
     Inr \<lparr>iterable_type = LRef (Class ''std::vector<int>'' (Some std_size_t)),
          m_iterable_t = LRef (Class ''std::vector<int>'' (Some std_size_t)),
          enumerator_index_type = Scalar ''unsigned char''\<rparr> \<and>
   begin_t \<lparr>iterable_type = LRef (Class ''std::vector<int>'' (Some std_size_t)),
            m_iterable_t = LRef (Class ''std::vector<int>'' (Some std_size_t)),
            enumerator_index_type = Scalar ''unsigned char''\<rparr>
       (IncClass ''std::vector<int>::iterator'') (LRef (Scalar ''int'')) =
     Inr \<lparr>iterator_type = RRef (IncClass ''std::vector<int>::iterator''),
          m_iterator_t = IncClass ''std::vector<int>::iterator'',
          index_type = Scalar ''unsigned char'', m_index_t = Scalar ''unsigned char'',
          dereference_result_type =
            StdTuple [Const (Scalar ''unsigned char''), LRef (Scalar ''int'')]\<rparr> \<and>
   enumerate_t (LRef (Class ''ring'' (Some (Scalar ''unsigned short'')))) None =
     Inr \<lparr>iterable_type = LRef (Class ''ring'' (Some (Scalar ''unsigned short''))),
          m_iterable_t = LRef (Class ''ring'' (Some (Scalar ''unsigned short''))),
          enumerator_index_type = Scalar ''unsigned short''\<rparr> \<and>
   enumerate_t (LRef (Class ''generator'' None)) None =
     Inr \<lparr>iterable_type = LRef (Class ''generator'' None),
          m_iterable_t = LRef (Class ''generator'' None),
          enumerator_index_type = std_size_t\<rparr>"
proof -
  let ?V = "LRef (Class ''std::vector<int>'' (Some std_size_t))"
  let ?obj = "\<lparr>iterable_type = ?V, m_iterable_t = ?V,
               enumerator_index_type = Scalar ''unsigned char''\<rparr>"
  let ?B = "IncClass ''std::vector<int>::iterator''"
  let ?D = "LRef (Scalar ''int'')"
  let ?it = "\<lparr>iterator_type = RRef ?B, m_iterator_t = ?B,
          index_type = Scalar ''unsigned char'', m_index_t = Scalar ''unsigned char'',
          dereference_result_type = StdTuple [Const (Scalar ''unsigned char''), ?D]\<rparr>"
  have e: "enumerate_t ?V (Some (Scalar ''unsigned char'')) = Inr ?obj"
    by (simp add: enumerate_t_eq is_reference_v_def get_stored_t_def Let_def)
  have b: "begin_t ?obj ?B ?D = Inr ?it"
    by (simp add: begin_t_accepts get_stored_t_def)
  have r: "enumerate_t (LRef (Class ''ring'' (Some (Scalar ''unsigned short'')))) None =
     Inr \<lparr>iterable_type = LRef (Class ''ring'' (Some (Scalar ''unsigned short''))),
          m_iterable_t = LRef (Class ''ring'' (Some (Scalar ''unsigned short''))),
          enumerator_index_type = Scalar ''unsigned short''\<rparr>"
    by (simp add: enumerate_t_eq is_reference_v_def get_stored_t_def get_index_t_def Let_def)
  have g: "enumerate_t (LRef (Class ''generator'' None)) None =
     Inr \<lparr>iterable_type = LRef (Class ''generator'' None),
          m_iterable_t = LRef (Class ''generator'' None),
          enumerator_index_type = std_size_t\<rparr>"
    by (simp add: enumerate_t_eq is_reference_v_def get_stored_t_def get_index_t_def std_size_t_def Let_def)
  from index_type_selection
    [where Iterable = ?V and Index = "Some (Scalar ''unsigned char'')" and Begin = ?B and Deref = ?D,
      rule_format, OF e b]
  have "index_type ?it = Scalar ''unsigned char''" by simp
  with e b r g show ?thesis by simp
qed

lemma plain_for_Some:
  assumes "plain_for ops c = Some xs"
  obtains n where "\<forall>k<n. neq_op ops (position ops c k) (end_op ops c)"
    and "\<not> neq_op ops (position ops c n) (end_op ops c)"
    and "xs = map (\<lambda>k. deref_op ops c (position ops c k)) [0..<n]"
proof -
  have "\<not> (\<forall>k. neq_op ops (position ops c k) (end_op ops c))"
  proof
    assume "\<forall>k. neq_op ops (position ops c k) (end_op ops c)"
    then have "plain_for ops c = None" by (rule plain_for_infinite)
    with assms show False by simp
  qed
  then obtain n where n: "\<forall>k<n. neq_op ops (position ops c k) (end_op ops c)"
    "\<not> neq_op ops (position ops c n) (end_op ops c)"
    by (rule position_first_end)
  from plain_for_finite[OF n] assms
  have "xs = map (\<lambda>k. deref_op ops c (position ops c k)) [0..<n]" by simp
  with n show thesis using that by blast
qed

text \<open>
  Claim C8, as amended. The adapter detects its errors when it is compiled.
  \<^verbatim>\<open>enumerator\<close> is rejected, by a static assertion, exactly when its iterable type is not
  a reference or its index type is one. \<^verbatim>\<open>indexed_iterator\<close> is rejected by a static
  assertion when its iterator type is not a reference or its index type is one, and is
  rejected as well, at an ill-formed member declaration and not at an assertion, when its
  index type is not an object type or when the wrapped iterator or the index cannot be
  incremented. Through \<^verbatim>\<open>xtr::enumerate\<close> over an iterable type that is an object type or
  a reference (any type but \<^verbatim>\<open>void\<close>, with or without \<^verbatim>\<open>const\<close>), a reference as index
  type is rejected by the assertion; when the index type and the wrapped iterator can be
  incremented, the enumerator and its iterator are instantiated.
  At run time there is no error to report: the traversal of a finite iterable of length
  \<open>N\<close> completes with the iterator at the sentinel, having dereferenced and advanced the
  wrapped iterator at the first \<open>N\<close> positions, each of which compared unequal to the
  sentinel, and at no other.
\<close>

theorem errors_are_compile_time:
  fixes ops :: "('c, 'it, 'e, 'r) iterable_ops"
  shows
  "enumerator_inst Iterable Index =
     (if \<not> is_reference_v Iterable
      then Inl (static_assert_failed ''iterable_type must be a reference'')
      else if is_reference_v Index
      then Inl (static_assert_failed ''index_type must not be a reference'')
      else Inr \<lparr>iterable_type = Iterable, m_iterable_t = get_stored_t Iterable,
                enumerator_index_type = Index\<rparr>) \<and>
   indexed_iterator_inst Iterator Index Deref =
     (if \<not> is_reference_v Iterator
      then Inl (static_assert_failed ''iterator_type must be a reference'')
      else if is_reference_v Index
      then Inl (static_assert_failed ''index_type must not be a reference'')
      else if \<not> is_object_v Index
      then Inl (ill_formed ''index_type m_index'')
      else if \<not> incrementable (remove_reference_t Iterator)
      then Inl (ill_formed ''++declval<add_lvalue_reference_t<iterator_type>>()'')
      else if \<not> incrementable Index
      then Inl (ill_formed ''++declval<add_lvalue_reference_t<index_type>>()'')
      else Inr \<lparr>iterator_type = Iterator, m_iterator_t = get_stored_t Iterator,
                index_type = Index, m_index_t = Index,
                dereference_result_type = StdTuple [add_const_t Index, Deref]\<rparr>) \<and>
   (is_object_v U \<or> is_reference_v U \<longrightarrow> is_reference_v Index \<longrightarrow>
      enumerate_t U (Some Index) =
        Inl (static_assert_failed ''index_type must not be a reference'')) \<and>
   (is_object_v U \<or> is_reference_v U \<longrightarrow>
    incrementable Index \<longrightarrow> incrementable (remove_reference_t Begin) \<longrightarrow>
      (\<exists>object it. enumerate_t U (Some Index) = Inr object \<and>
         begin_t object Begin Deref = Inr it)) \<and>
   (\<forall>xs. plain_for ops c = Some xs \<longrightarrow>
      (\<exists>s' :: ('c, 'it, 'e, 'w::len word, 'r) loop_state.
         range_for_state ops (enumerate c) = Some s' \<and>
         length (out s') = length xs \<and>
         \<not> operator_neq ops (begin_obj s') (end_obj s') \<and>
         (\<forall>k<length xs.
            neq_op ops (position ops c k) (end_op ops c) \<and>
            out s' ! k = (of_nat k, deref_op ops c (position ops c k)))))"
proof -
  have rejected: "is_object_v U \<or> is_reference_v U \<longrightarrow> is_reference_v Index \<longrightarrow>
      enumerate_t U (Some Index) =
        Inl (static_assert_failed ''index_type must not be a reference'')"
    by (simp add: enumerate_t_eq)
  have accepted: "is_object_v U \<or> is_reference_v U \<longrightarrow> incrementable Index \<longrightarrow>
      incrementable (remove_reference_t Begin) \<longrightarrow>
      (\<exists>object it. enumerate_t U (Some Index) = Inr object \<and>
         begin_t object Begin Deref = Inr it)"
  proof (intro impI)
    assume u: "is_object_v U \<or> is_reference_v U" and i: "incrementable Index"
      and b: "incrementable (remove_reference_t Begin)"
    let ?object = "\<lparr>iterable_type = add_rvalue_reference_t U,
        m_iterable_t = get_stored_t (add_rvalue_reference_t U),
        enumerator_index_type = Index\<rparr>"
    from u incrementable_object[OF i] have "enumerate_t U (Some Index) = Inr ?object"
      by (simp add: enumerate_t_eq)
    moreover from i b have "\<exists>it. begin_t ?object Begin Deref = Inr it"
      by (simp add: begin_t_accepts)
    ultimately show "\<exists>object it. enumerate_t U (Some Index) = Inr object \<and>
         begin_t object Begin Deref = Inr it"
      by blast
  qed
  have runs: "\<forall>xs. plain_for ops c = Some xs \<longrightarrow>
      (\<exists>s' :: ('c, 'it, 'e, 'w word, 'r) loop_state.
         range_for_state ops (enumerate c) = Some s' \<and>
         length (out s') = length xs \<and>
         \<not> operator_neq ops (begin_obj s') (end_obj s') \<and>
         (\<forall>k<length xs.
            neq_op ops (position ops c k) (end_op ops c) \<and>
            out s' ! k = (of_nat k, deref_op ops c (position ops c k))))"
  proof (intro allI impI)
    fix xs assume "plain_for ops c = Some xs"
    then obtain n where n: "\<forall>k<n. neq_op ops (position ops c k) (end_op ops c)"
      "\<not> neq_op ops (position ops c n) (end_op ops c)"
      and xs: "xs = map (\<lambda>k. deref_op ops c (position ops c k)) [0..<n]"
      by (rule plain_for_Some)
    let ?s = "\<lparr>range_obj = enumerate c,
        begin_obj = \<lparr>m_iterator = position ops c n, m_index = of_nat n :: 'w word\<rparr>,
        end_obj = end_op ops c,
        out = map (\<lambda>k. (of_nat k, deref_op ops c (position ops c k))) [0..<n]\<rparr>"
    have run: "range_for_state ops (enumerate c) = Some ?s"
      using n by (rule range_for_state_finite)
    have "length (out ?s) = length xs" by (simp add: xs)
    moreover have "\<not> operator_neq ops (begin_obj ?s) (end_obj ?s)"
      using n(2) by (simp add: operator_neq_def)
    moreover have "\<forall>k<length xs.
        neq_op ops (position ops c k) (end_op ops c) \<and>
        out ?s ! k = (of_nat k, deref_op ops c (position ops c k))"
      using n(1) by (simp add: xs)
    ultimately show "\<exists>s' :: ('c, 'it, 'e, 'w word, 'r) loop_state.
         range_for_state ops (enumerate c) = Some s' \<and>
         length (out s') = length xs \<and>
         \<not> operator_neq ops (begin_obj s') (end_obj s') \<and>
         (\<forall>k<length xs.
            neq_op ops (position ops c k) (end_op ops c) \<and>
            out s' ! k = (of_nat k, deref_op ops c (position ops c k)))"
      using run by blast
  qed
  show ?thesis
    by (intro conjI enumerator_inst_eq indexed_iterator_inst_eq rejected accepted runs)
qed

text \<open>
  \<^verbatim>\<open>xtr::enumerate\<close> over a temporary \<^verbatim>\<open>std::vector<int>\<close> with the index types
  \<^verbatim>\<open>int\<close> and \<^verbatim>\<open>int &\<close>, \<^verbatim>\<open>enumerator\<close> instantiated with an iterable type that is not a
  reference, and the traversal of a vector holding 1, 2, 3.
\<close>

theorem errors_are_compile_time_witness:
  "is_object_v (Class ''std::vector<int>'' (Some std_size_t)) \<and>
   incrementable (Scalar ''int'') \<and>
   incrementable (remove_reference_t (IncClass ''std::vector<int>::iterator'')) \<and>
   (\<exists>object it.
      enumerate_t (Class ''std::vector<int>'' (Some std_size_t)) (Some (Scalar ''int'')) = Inr object \<and>
      begin_t object (IncClass ''std::vector<int>::iterator'') (LRef (Scalar ''int'')) = Inr it) \<and>
   is_reference_v (LRef (Scalar ''int'')) \<and>
   enumerate_t (Class ''std::vector<int>'' (Some std_size_t)) (Some (LRef (Scalar ''int''))) =
     Inl (static_assert_failed ''index_type must not be a reference'') \<and>
   enumerator_inst (Class ''std::vector<int>'' (Some std_size_t)) (Scalar ''int'') =
     Inl (static_assert_failed ''iterable_type must be a reference'') \<and>
   plain_for vector_ops [1, 2, 3 :: int] = Some [1, 2, 3] \<and>
   (\<exists>s' :: (int list, nat, nat, size_t, int) loop_state.
      range_for_state vector_ops (enumerate [1, 2, 3 :: int]) = Some s' \<and>
      length (out s') = 3 \<and> out s' ! 2 = (2, 3))"
proof -
  let ?U = "Class ''std::vector<int>'' (Some std_size_t)"
  let ?B = "IncClass ''std::vector<int>::iterator''"
  let ?D = "LRef (Scalar ''int'')"
  let ?ops = "vector_ops :: (int list, nat, nat, int) iterable_ops"
  have u: "is_object_v ?U" by simp
  have ref: "is_reference_v (LRef (Scalar ''int''))" by (simp add: is_reference_v_def)
  have inc: "incrementable (Scalar ''int'')" by simp
  have incb: "incrementable (remove_reference_t ?B)" by simp
  have plain: "plain_for ?ops [1, 2, 3] = Some [1, 2, 3]" by (rule plain_for_vector)
  note main = errors_are_compile_time
    [where U = ?U and Begin = ?B and Deref = ?D and ops = ?ops and c = "[1, 2, 3]" and 'w = 64]
  have rej: "enumerate_t ?U (Some (LRef (Scalar ''int''))) =
      Inl (static_assert_failed ''index_type must not be a reference'')"
    using main [where Index = "LRef (Scalar ''int'')", THEN conjunct2, THEN conjunct2, THEN conjunct1]
      u ref
    by simp
  have base: "enumerator_inst ?U (Scalar ''int'') =
      Inl (static_assert_failed ''iterable_type must be a reference'')"
    using main [where Iterable = ?U and Index = "Scalar ''int''", THEN conjunct1]
    by (simp add: is_reference_v_def)
  have acc: "\<exists>object it. enumerate_t ?U (Some (Scalar ''int'')) = Inr object \<and>
      begin_t object ?B ?D = Inr it"
    using main [where Index = "Scalar ''int''",
        THEN conjunct2, THEN conjunct2, THEN conjunct2, THEN conjunct1] u inc incb
    by simp
  have "\<exists>s' :: (int list, nat, nat, size_t, int) loop_state.
      range_for_state ?ops (enumerate [1, 2, 3]) = Some s' \<and>
      length (out s') = length [1, 2, 3 :: int] \<and>
      \<not> operator_neq ?ops (begin_obj s') (end_obj s') \<and>
      (\<forall>k<length [1, 2, 3 :: int].
         neq_op ?ops (position ?ops [1, 2, 3] k) (end_op ?ops [1, 2, 3]) \<and>
         out s' ! k = (of_nat k, deref_op ?ops [1, 2, 3] (position ?ops [1, 2, 3] k)))"
    by (rule main [where Index = "Scalar ''int''",
        THEN conjunct2, THEN conjunct2, THEN conjunct2, THEN conjunct2, rule_format, OF plain])
  then obtain s' :: "(int list, nat, nat, size_t, int) loop_state"
    where run: "range_for_state ?ops (enumerate [1, 2, 3]) = Some s'"
      and len: "length (out s') = length [1, 2, 3 :: int]"
      and each: "\<forall>k<length [1, 2, 3 :: int].
         neq_op ?ops (position ?ops [1, 2, 3] k) (end_op ?ops [1, 2, 3]) \<and>
         out s' ! k = (of_nat k, deref_op ?ops [1, 2, 3] (position ?ops [1, 2, 3] k))"
    by blast
  from each have "out s' ! 2 = (2, 3)"
    by (simp add: vector_position vector_ops_simps)
  with run len have runs: "\<exists>s' :: (int list, nat, nat, size_t, int) loop_state.
      range_for_state ?ops (enumerate [1, 2, 3]) = Some s' \<and>
      length (out s') = 3 \<and> out s' ! 2 = (2, 3)"
    by auto
  from u inc incb acc ref rej base plain runs show ?thesis by blast
qed

text \<open>
  Not every refusal is an assertion, and an index type that is no reference may still be
  refused: for \<^verbatim>\<open>xtr::enumerate<std::vector<int> &, const unsigned>(v)\<close> the enumerator is
  instantiated, the iterator and iterable types are references and the index type is none,
  yet \<^verbatim>\<open>begin\<close> of the enumerator does not compile, since a \<^verbatim>\<open>const unsigned\<close> cannot be
  incremented.
\<close>

theorem const_index_is_refused_counterexample:
  "is_reference_v (LRef (Class ''std::vector<int>'' (Some std_size_t))) \<and>
   is_reference_v (add_rvalue_reference_t (IncClass ''std::vector<int>::iterator'')) \<and>
   \<not> is_reference_v (Const (Scalar ''unsigned int'')) \<and>
   enumerate_t (LRef (Class ''std::vector<int>'' (Some std_size_t)))
       (Some (Const (Scalar ''unsigned int''))) =
     Inr \<lparr>iterable_type = LRef (Class ''std::vector<int>'' (Some std_size_t)),
          m_iterable_t = LRef (Class ''std::vector<int>'' (Some std_size_t)),
          enumerator_index_type = Const (Scalar ''unsigned int'')\<rparr> \<and>
   begin_t \<lparr>iterable_type = LRef (Class ''std::vector<int>'' (Some std_size_t)),
            m_iterable_t = LRef (Class ''std::vector<int>'' (Some std_size_t)),
            enumerator_index_type = Const (Scalar ''unsigned int'')\<rparr>
       (IncClass ''std::vector<int>::iterator'') (LRef (Scalar ''int'')) =
     Inl (ill_formed ''++declval<add_lvalue_reference_t<index_type>>()'')"
  by (simp add: enumerate_t_eq begin_t_def begin_result_type_def indexed_iterator_inst_eq
      is_reference_v_def get_stored_t_def Let_def)

text \<open>
  Claim C9. \<^verbatim>\<open>xtr::multiarray<T, N>\<close> is \<^verbatim>\<open>std::array<T, N>\<close>, and
  \<^verbatim>\<open>xtr::multiarray<T, I, J...>\<close> is \<^verbatim>\<open>std::array<xtr::multiarray<T, J...>, I>\<close>: the
  arrays are nested in the order of the extents, the first extent outermost.
\<close>

theorem multiarray_is_nested_array:
  "multiarray T N [] = StdArray T N \<and>
   multiarray T I (J # Js) = StdArray (multiarray T J Js) I \<and>
   multiarray T I Js = foldr (\<lambda>n t. StdArray t n) (I # Js) T \<and>
   extents (multiarray T I Js) = (I # Js) @ extents T"
proof -
  have closed: "multiarray_base T I Js = foldr (\<lambda>n t. StdArray t n) (I # Js) T" for I Js
    by (induction Js arbitrary: I) simp_all
  have ext: "extents (foldr (\<lambda>n t. StdArray t n) Ks T) = Ks @ extents T" for Ks
    by (induction Ks) simp_all
  show ?thesis
    by (simp add: multiarray_def closed ext)
qed

section \<open>Who owns the iterable\<close>

lemma stored_type_of_forwarded:
  assumes "\<not> is_reference_v U"
  shows "get_stored_t (add_rvalue_reference_t U) = U"
    and "get_stored_t (add_rvalue_reference_t (LRef U)) = LRef U"
  using assms by (cases U; simp add: get_stored_t_def is_reference_v_def)+

lemma enumerate_call_rvalue:
  assumes "\<not> is_reference_v U" and "mem a = Some c"
  shows "enumerate_call moved rvalue U mem a = Some (\<lparr>m_iterable = Held c\<rparr>, mem(a \<mapsto> moved c))"
  using assms
  by (simp add: enumerate_call_def enumerator_def enumerator_base_def stored_type_of_forwarded(1))






text \<open>
  Claim C7. The variadic \<^verbatim>\<open>xtr::enumerate\<close> initialises the member \<^verbatim>\<open>m_iterable\<close>, an
  object of the iterable's type, from the arguments themselves: the iterable the adapter
  holds is the iterable constructed from the arguments, and the memory is as it was, with
  no temporary iterable in it. The adapter is the one that constructing a temporary from
  the same arguments and passing it to \<^verbatim>\<open>xtr::enumerate\<close> gives, which leaves a moved-from
  temporary behind.
\<close>

theorem variadic_enumerate_constructs_in_place:
  "enumerate_variadic construct parameters mem =
     (\<lparr>m_iterable = Held (construct parameters)\<rparr>, mem) \<and>
   iterable_of mem' (fst (enumerate_variadic construct parameters mem)) =
     Some (construct parameters) \<and>
   snd (enumerate_variadic construct parameters mem) = mem \<and>
   (\<not> is_reference_v U \<longrightarrow> get_stored_t (add_rvalue_reference_t U) = U) \<and>
   (\<not> is_reference_v U \<longrightarrow>
      enumerate_call moved rvalue U (mem(a \<mapsto> construct parameters)) a =
        Some (fst (enumerate_variadic construct parameters mem),
              mem(a \<mapsto> moved (construct parameters))))"
proof -
  have v: "enumerate_variadic construct parameters mem =
      (\<lparr>m_iterable = Held (construct parameters)\<rparr>, mem)"
    by (simp add: enumerate_variadic_def enumerator_variadic_def enumerator_base_variadic_def)
  have i: "iterable_of mem' (fst (enumerate_variadic construct parameters mem)) =
      Some (construct parameters)"
    by (simp add: v iterable_of_def)
  have m: "snd (enumerate_variadic construct parameters mem) = mem"
    by (simp add: v)
  have t: "\<not> is_reference_v U \<longrightarrow> get_stored_t (add_rvalue_reference_t U) = U"
    using stored_type_of_forwarded(1) [of U] by simp
  have c: "\<not> is_reference_v U \<longrightarrow>
      enumerate_call moved rvalue U (mem(a \<mapsto> construct parameters)) a =
        Some (fst (enumerate_variadic construct parameters mem),
              mem(a \<mapsto> moved (construct parameters)))"
  proof
    assume u: "\<not> is_reference_v U"
    have "(mem(a \<mapsto> construct parameters)) a = Some (construct parameters)" by simp
    from enumerate_call_rvalue
      [where U = U and mem = "mem(a \<mapsto> construct parameters)" and a = a
        and c = "construct parameters" and moved = moved, OF u this]
    show "enumerate_call moved rvalue U (mem(a \<mapsto> construct parameters)) a =
        Some (fst (enumerate_variadic construct parameters mem),
              mem(a \<mapsto> moved (construct parameters)))"
      by (simp add: v)
  qed
  show ?thesis
    by (intro conjI v i m t c)
qed

text \<open>\<^verbatim>\<open>xtr::enumerate<std::vector<int>>(3, 7)\<close>: the vector list-initialised from 3 and 7.\<close>

theorem variadic_enumerate_constructs_in_place_witness:
  "enumerate_variadic (\<lambda>xs. xs) [3, 7 :: int] Map.empty =
     (\<lparr>m_iterable = Held [3, 7]\<rparr>, Map.empty) \<and>
   \<not> is_reference_v (Class ''std::vector<int>'' (Some std_size_t)) \<and>
   get_stored_t (add_rvalue_reference_t (Class ''std::vector<int>'' (Some std_size_t))) =
     Class ''std::vector<int>'' (Some std_size_t) \<and>
   enumerate_call (\<lambda>c. []) rvalue (Class ''std::vector<int>'' (Some std_size_t))
       (Map.empty(0 \<mapsto> [3, 7 :: int])) 0 =
     Some (\<lparr>m_iterable = Held [3, 7]\<rparr>, Map.empty(0 \<mapsto> []))"
proof -
  let ?U = "Class ''std::vector<int>'' (Some std_size_t)"
  have u: "\<not> is_reference_v ?U" by (simp add: is_reference_v_def)
  note main = variadic_enumerate_constructs_in_place
    [where construct = "\<lambda>xs. xs" and parameters = "[3, 7 :: int]" and mem = Map.empty
      and U = ?U and a = 0 and moved = "\<lambda>c. []"]
  have v: "enumerate_variadic (\<lambda>xs. xs) [3, 7 :: int] Map.empty =
      (\<lparr>m_iterable = Held [3, 7]\<rparr>, Map.empty)"
    by (rule main [THEN conjunct1])
  have t: "get_stored_t (add_rvalue_reference_t ?U) = ?U"
    using main [THEN conjunct2, THEN conjunct2, THEN conjunct2, THEN conjunct1] u by simp
  have c: "enumerate_call (\<lambda>c. []) rvalue ?U (Map.empty(0 \<mapsto> [3, 7 :: int])) 0 =
      Some (\<lparr>m_iterable = Held [3, 7]\<rparr>, Map.empty(0 \<mapsto> []))"
    using main [THEN conjunct2, THEN conjunct2, THEN conjunct2, THEN conjunct2] u
    by (simp add: v)
  from v u t c show ?thesis by simp
qed

end
